theory Spec2Isabelle
  imports Complex_Main "HOL-Library.Multiset"
begin

section \<open>JavaScript values\<close>

text \<open>
  Templates, request bodies and table cells are JSON values. The JavaScript value
  \<open>undefined\<close> (an absent property) is \<open>None\<close> of \<open>json option\<close>.
\<close>

datatype json =
    JNull
  | JBool bool
  | JNum rat
  | JStr string
  | JArr "json list"
  | JObj "(string \<times> json) list"

text \<open>The truthiness test behind \<open>!x\<close>, \<open>x && y\<close> and \<open>if (x)\<close>.\<close>

fun truthy :: "json option \<Rightarrow> bool" where
  "truthy None = False"
| "truthy (Some JNull) = False"
| "truthy (Some (JBool b)) = b"
| "truthy (Some (JNum r)) = (r \<noteq> 0)"
| "truthy (Some (JStr s)) = (s \<noteq> [])"
| "truthy (Some (JArr xs)) = True"
| "truthy (Some (JObj kvs)) = True"

text \<open>A string or null, as \<open>if (e)\<close> and \<open>`${e}`\<close> see it.\<close>

definition truthy_string :: "string option \<Rightarrow> bool" where
  "truthy_string e = (case e of None \<Rightarrow> False | Some s \<Rightarrow> s \<noteq> [])"

definition template_literal :: "string option \<Rightarrow> string" where
  "template_literal e = (case e of None \<Rightarrow> ''null'' | Some s \<Rightarrow> s)"

text \<open>
  A \<open>Date\<close> object holds a time value in milliseconds, or none: \<open>new Date(x)\<close> of
  an unreadable \<open>x\<close> is an Invalid Date, whose time value is NaN.
\<close>

datatype Date = Time int | Invalid_Date

text \<open>
  \<open>a < b\<close> and \<open>a <= b\<close> on dates compare the time values as numbers, and every
  comparison with NaN is false.
\<close>

instantiation Date :: ord
begin

fun less_eq_Date :: "Date \<Rightarrow> Date \<Rightarrow> bool" where
  "less_eq_Date (Time a) (Time b) = (a \<le> b)"
| "less_eq_Date (Time a) Invalid_Date = False"
| "less_eq_Date Invalid_Date d = False"

fun less_Date :: "Date \<Rightarrow> Date \<Rightarrow> bool" where
  "less_Date (Time a) (Time b) = (a < b)"
| "less_Date (Time a) Invalid_Date = False"
| "less_Date Invalid_Date d = False"

instance ..

end

text \<open>
  The type of \<open>PromptRecord\<close> declares \<open>createdAt\<close> a \<open>Date\<close>, and every
  object is truthy, an Invalid Date too: the guard \<open>a.createdAt && b.createdAt\<close> lets
  every pair of dates through to the comparisons.
\<close>

definition truthy_Date :: "Date \<Rightarrow> bool" where
  "truthy_Date d = True"

datatype exn =
    TypeError
  | QueryResultError
  | CardinalityViolation
  | DatabaseError

text \<open>The result values of \<open>shared/result\<close>: \<open>{data, error}\<close> with \<open>null\<close> as \<open>None\<close>.\<close>

record 'a Result =
  data :: "'a option"
  error :: "string option"

definition ok :: "'a \<Rightarrow> 'a Result" where
  "ok x = \<lparr>data = Some x, error = None\<rparr>"

definition err :: "string \<Rightarrow> 'a Result" where
  "err e = \<lparr>data = None, error = Some e\<rparr>"

text \<open>Decimal rendering of an array index, for \<open>Object.keys\<close> of arrays and strings.\<close>

definition digit_char :: "nat \<Rightarrow> char" where
  "digit_char d = char_of (48 + d)"

fun index_string :: "nat \<Rightarrow> string" where
  "index_string n =
     (if n < 10 then [digit_char n]
      else index_string (n div 10) @ [digit_char (n mod 10)])"

declare index_string.simps [simp del]

text \<open>
  \<open>heliconeTemplate.inputs\<close>: the property of an object; a truthy primitive or an
  array has no such property.
\<close>

fun template_inputs :: "json \<Rightarrow> json option" where
  "template_inputs (JObj kvs) = map_of kvs ''inputs''"
| "template_inputs j = None"

text \<open>
  \<open>Object.keys\<close> raises a TypeError on \<open>undefined\<close> and \<open>null\<close>. The keys
  of an object are given in the order of its list; JavaScript would put integer-like keys
  first, and nothing below depends on the order of the keys.
\<close>

fun Object_keys :: "json option \<Rightarrow> exn + string list" where
  "Object_keys None = Inl TypeError"
| "Object_keys (Some JNull) = Inl TypeError"
| "Object_keys (Some (JObj kvs)) = Inr (remdups (map fst kvs))"
| "Object_keys (Some (JArr xs)) = Inr (map index_string [0..<length xs])"
| "Object_keys (Some (JStr s)) = Inr (map index_string [0..<length s])"
| "Object_keys (Some (JBool b)) = Inr []"
| "Object_keys (Some (JNum r)) = Inr []"

section \<open>The log store: data\<close>

record PromptRecord =
  promptId :: string
  orgId :: string
  requestId :: string
  heliconeTemplate :: "json option"
  model :: "string option"
  createdAt :: Date

text \<open>A row of a bulk table is an object: column name to value.\<close>

type_synonym row = "string \<rightharpoonup> json"

record BatchPayload =
  requests :: "row list option"
  responses :: "row list option"
  properties :: "row list option"
  prompts :: "PromptRecord list"

record prompt_v2_row =
  p_id :: string
  p_user_defined_id :: string
  p_organization :: string
  p_created_at :: Date

record prompts_versions_row =
  v_id :: string
  v_prompt_v2 :: string
  v_organization :: string
  v_major_version :: int
  v_minor_version :: int
  v_helicone_template :: json
  v_model :: "string option"
  v_created_at :: Date

record prompt_input_keys_row =
  k_key :: string
  k_prompt_version :: string
  k_created_at :: Date

record prompt_input_record_row =
  r_inputs :: json
  r_source_request :: string
  r_prompt_version :: string
  r_created_at :: Date

record database =
  request_tbl :: "row list"
  response_tbl :: "row list"
  properties_tbl :: "row list"
  prompt_v2 :: "prompt_v2_row list"
  prompts_versions :: "prompts_versions_row list"
  prompt_input_keys :: "prompt_input_keys_row list"
  prompt_input_record :: "prompt_input_record_row list"

text \<open>The statements the store sends to the database, with their parameters.\<close>

datatype stmt =
    Begin
  | Commit
  | UpsertRequest "row list"
  | UpsertResponse "row list"
  | UpsertProperties "row list"
  | AdvisoryXactLock string
  | SelectPrompt string string
  | InsertPrompt string string Date
  | SelectLatestVersion string string
  | InsertVersion string string int json "string option" Date
  | InsertInputKeys "string list" string Date
  | InsertInputRecord json string string Date

text \<open>
  A running transaction: the tables as the transaction sees them, the advisory locks it
  holds in the order it took them, and the statements it has sent so far.
\<close>

record tx =
  db :: database
  locks :: "string list"
  issued :: "stmt list"

text \<open>
  What the store imports and does not define: \<open>deepCompare\<close> of \<open>utils/helpers\<close>;
  the database's default for an \<open>id\<close> column (given the ids the table holds); and
  whether the database accepts a statement (given the statements before it). A statement
  that is accepted has the effect its text names. Whether PostgreSQL accepts each text as
  it is written, and what pg-promise makes of a row object without a listed property, is
  left to \<open>rejects\<close>: a rejection raises in the callback like any other error.
\<close>

record env =
  deepCompare :: "json \<Rightarrow> json \<Rightarrow> bool"
  new_id :: "string list \<Rightarrow> string"
  rejects :: "stmt list \<Rightarrow> stmt \<Rightarrow> bool"

definition issue :: "env \<Rightarrow> stmt \<Rightarrow> tx \<Rightarrow> exn + tx" where
  "issue E s t =
     (if rejects E (issued t) s then Inl DatabaseError
      else Inr (t\<lparr>issued := issued t @ [s]\<rparr>))"

section \<open>The bulk upserts\<close>

text \<open>
  The column sets, in the order of the source. The properties list has an elided element
  after \<open>id\<close>, which names no column.
\<close>

definition requestColumns :: "string list" where
  "requestColumns =
     [''auth_hash'', ''body'', ''created_at'', ''formatted_prompt_id'',
      ''helicone_api_key_id'', ''helicone_org_id'', ''helicone_proxy_key_id'',
      ''helicone_user'', ''id'', ''model'', ''model_override'', ''path'', ''prompt_id'',
      ''prompt_values'', ''properties'', ''provider'', ''request_ip'', ''target_url'',
      ''threat'', ''user_id'']"

definition responseColumns :: "string list" where
  "responseColumns =
     [''body'', ''completion_tokens'', ''created_at'', ''delay_ms'', ''feedback'', ''id'',
      ''model'', ''prompt_tokens'', ''request'', ''status'', ''time_to_first_token'']"

definition propertiesColumns :: "string list" where
  "propertiesColumns =
     [''auth_hash'', ''created_at'', ''id'', ''key'', ''request_id'', ''user_id'', ''value'']"

text \<open>\<open>assignColumns({from: "EXCLUDED", skip: "id"})\<close>: the columns the conflict overwrites.\<close>

definition assignColumns :: "string list \<Rightarrow> string list" where
  "assignColumns cols = filter (\<lambda>c. c \<noteq> ''id'') cols"

definition row_id :: "row \<Rightarrow> json option" where
  "row_id r = r ''id''"

text \<open>The row an insert stores: the listed columns of the incoming object.\<close>

definition inserted_row :: "string list \<Rightarrow> row \<Rightarrow> row" where
  "inserted_row cols x = (\<lambda>c. if c \<in> set cols then x c else None)"

text \<open>\<open>DO UPDATE SET c = EXCLUDED.c\<close> for every assigned column.\<close>

definition updated_row :: "string list \<Rightarrow> row \<Rightarrow> row \<Rightarrow> row" where
  "updated_row cols x old = (\<lambda>c. if c \<in> set (assignColumns cols) then x c else old c)"

definition upsert_row :: "string list \<Rightarrow> row \<Rightarrow> row list \<Rightarrow> row list" where
  "upsert_row cols x tbl =
     (if row_id x \<in> row_id ` set tbl
      then map (\<lambda>old. if row_id old = row_id x then updated_row cols x old else old) tbl
      else tbl @ [inserted_row cols x])"

text \<open>
  One multi-row \<open>INSERT ... ON CONFLICT (id) DO UPDATE\<close>. PostgreSQL refuses a command
  that proposes the same key twice.
\<close>

definition upsert_rows :: "string list \<Rightarrow> row list \<Rightarrow> row list \<Rightarrow> exn + row list" where
  "upsert_rows cols xs tbl =
     (if distinct (map row_id xs) then Inr (fold (upsert_row cols) xs tbl)
      else Inl CardinalityViolation)"

section \<open>Prompt-version resolution\<close>

text \<open>\<open>oneOrNone\<close> rejects when the query returns more than one row.\<close>

fun oneOrNone :: "'a list \<Rightarrow> exn + 'a option" where
  "oneOrNone [] = Inr None"
| "oneOrNone [x] = Inr (Some x)"
| "oneOrNone (x # y # zs) = Inl QueryResultError"

definition select_prompt :: "database \<Rightarrow> string \<Rightarrow> string \<Rightarrow> prompt_v2_row list" where
  "select_prompt d org pid =
     filter (\<lambda>p. p_organization p = org \<and> p_user_defined_id p = pid) (prompt_v2 d)"

text \<open>\<open>WHERE organization = $1 AND prompt_v2 = $2 ORDER BY major_version DESC LIMIT 1\<close>.\<close>

definition select_latest_version ::
  "database \<Rightarrow> string \<Rightarrow> string \<Rightarrow> prompts_versions_row list" where
  "select_latest_version d org pid =
     take 1 (sort_key (\<lambda>v. - v_major_version v)
       (filter (\<lambda>v. v_organization v = org \<and> v_prompt_v2 v = pid) (prompts_versions d)))"

definition insert_prompt :: "prompt_v2_row \<Rightarrow> database \<Rightarrow> database" where
  "insert_prompt p d = d\<lparr>prompt_v2 := prompt_v2 d @ [p]\<rparr>"

definition insert_version :: "prompts_versions_row \<Rightarrow> database \<Rightarrow> database" where
  "insert_version v d = d\<lparr>prompts_versions := prompts_versions d @ [v]\<rparr>"

text \<open>
  \<open>ON CONFLICT (key, prompt_version) DO NOTHING\<close>, one key after the other. The
  statement names \<open>created_at\<close> as a target and is handed the record's time; the row
  is given that time.
\<close>

definition insert_input_key ::
  "string \<Rightarrow> Date \<Rightarrow> string \<Rightarrow> prompt_input_keys_row list \<Rightarrow> prompt_input_keys_row list" where
  "insert_input_key vid ts k tbl =
     (if (k, vid) \<in> (\<lambda>r. (k_key r, k_prompt_version r)) ` set tbl then tbl
      else tbl @ [\<lparr>k_key = k, k_prompt_version = vid, k_created_at = ts\<rparr>])"

definition insert_input_keys :: "string list \<Rightarrow> string \<Rightarrow> Date \<Rightarrow> database \<Rightarrow> database" where
  "insert_input_keys ks vid ts d =
     d\<lparr>prompt_input_keys := fold (insert_input_key vid ts) ks (prompt_input_keys d)\<rparr>"

definition insert_input_record :: "prompt_input_record_row \<Rightarrow> database \<Rightarrow> database" where
  "insert_input_record r d = d\<lparr>prompt_input_record := prompt_input_record d @ [r]\<rparr>"

definition on_db :: "(database \<Rightarrow> database) \<Rightarrow> tx \<Rightarrow> tx" where
  "on_db f t = t\<lparr>db := f (db t)\<rparr>"

text \<open>Lines 143 to 157: the prompt row, found or created.\<close>

definition ensure_prompt :: "env \<Rightarrow> PromptRecord \<Rightarrow> tx \<Rightarrow> exn + (prompt_v2_row \<times> tx)" where
  "ensure_prompt E r t =
     (case issue E (SelectPrompt (orgId r) (promptId r)) t of
        Inl e \<Rightarrow> Inl e
      | Inr t1 \<Rightarrow>
         (case oneOrNone (select_prompt (db t1) (orgId r) (promptId r)) of
            Inl e \<Rightarrow> Inl e
          | Inr (Some p) \<Rightarrow> Inr (p, t1)
          | Inr None \<Rightarrow>
             (case issue E (InsertPrompt (promptId r) (orgId r) (createdAt r)) t1 of
                Inl e \<Rightarrow> Inl e
              | Inr t2 \<Rightarrow>
                 (let p = \<lparr>p_id = new_id E (map p_id (prompt_v2 (db t2))),
                           p_user_defined_id = promptId r,
                           p_organization = orgId r,
                           p_created_at = createdAt r\<rparr>
                  in Inr (p, on_db (insert_prompt p) t2)))))"

text \<open>Lines 160 to 169: the latest version of that prompt, if any.\<close>

definition latest_version ::
  "env \<Rightarrow> PromptRecord \<Rightarrow> prompt_v2_row \<Rightarrow> tx \<Rightarrow> exn + (prompts_versions_row option \<times> tx)" where
  "latest_version E r p t =
     (case issue E (SelectLatestVersion (orgId r) (p_id p)) t of
        Inl e \<Rightarrow> Inl e
      | Inr t1 \<Rightarrow>
         (case oneOrNone (select_latest_version (db t1) (orgId r) (p_id p)) of
            Inl e \<Rightarrow> Inl e
          | Inr v \<Rightarrow> Inr (v, t1)))"

text \<open>The condition of line 174.\<close>

definition update_necessary ::
  "env \<Rightarrow> PromptRecord \<Rightarrow> json \<Rightarrow> prompts_versions_row option \<Rightarrow> bool" where
  "update_necessary E r tmpl ev =
     (case ev of
        None \<Rightarrow> True
      | Some v \<Rightarrow> v_created_at v \<le> createdAt r \<and> \<not> deepCompare E (v_helicone_template v) tmpl)"

definition new_version ::
  "env \<Rightarrow> PromptRecord \<Rightarrow> json \<Rightarrow> prompt_v2_row \<Rightarrow> prompts_versions_row option \<Rightarrow> database
     \<Rightarrow> prompts_versions_row" where
  "new_version E r tmpl p ev d =
     \<lparr>v_id = new_id E (map v_id (prompts_versions d)),
      v_prompt_v2 = p_id p,
      v_organization = orgId r,
      v_major_version = (case ev of Some v \<Rightarrow> v_major_version v + 1 | None \<Rightarrow> 0),
      v_minor_version = 0,
      v_helicone_template = tmpl,
      v_model = model r,
      v_created_at = createdAt r\<rparr>"

text \<open>Lines 171 to 197: the resolved version id, minted or reused.\<close>

definition resolve_version ::
  "env \<Rightarrow> PromptRecord \<Rightarrow> json \<Rightarrow> prompt_v2_row \<Rightarrow> prompts_versions_row option \<Rightarrow> tx
     \<Rightarrow> exn + (string \<times> tx)" where
  "resolve_version E r tmpl p ev t =
     (if update_necessary E r tmpl ev then
        (case issue E (InsertVersion (p_id p) (orgId r)
                 (case ev of Some v \<Rightarrow> v_major_version v + 1 | None \<Rightarrow> 0)
                 tmpl (model r) (createdAt r)) t of
           Inl e \<Rightarrow> Inl e
         | Inr t1 \<Rightarrow>
            (let v = new_version E r tmpl p ev (db t1)
             in Inr (v_id v, on_db (insert_version v) t1)))
      else Inr (case ev of Some v \<Rightarrow> v_id v | None \<Rightarrow> [], t))"

text \<open>Lines 200 to 224: the input keys and the input record, when the id is non-empty.\<close>

definition record_inputs ::
  "env \<Rightarrow> PromptRecord \<Rightarrow> json \<Rightarrow> string \<Rightarrow> tx \<Rightarrow> exn + tx" where
  "record_inputs E r tmpl versionId t =
     (if versionId \<noteq> [] then
        (case Object_keys (template_inputs tmpl) of
           Inl e \<Rightarrow> Inl e
         | Inr ks \<Rightarrow>
            (case issue E (InsertInputKeys ks versionId (createdAt r)) t of
               Inl e \<Rightarrow> Inl e
             | Inr t1 \<Rightarrow>
                (case issue E (InsertInputRecord (the (template_inputs tmpl)) (requestId r)
                         versionId (createdAt r))
                        (on_db (insert_input_keys ks versionId (createdAt r)) t1) of
                   Inl e \<Rightarrow> Inl e
                 | Inr t2 \<Rightarrow>
                    Inr (on_db (insert_input_record
                           \<lparr>r_inputs = the (template_inputs tmpl),
                            r_source_request = requestId r,
                            r_prompt_version = versionId,
                            r_created_at = createdAt r\<rparr>) t2))))
      else Inr t)"

definition processPrompt :: "env \<Rightarrow> PromptRecord \<Rightarrow> tx \<Rightarrow> exn + (string Result \<times> tx)" where
  "processPrompt E r t =
     (if \<not> truthy (heliconeTemplate r) then Inr (ok ''No Helicone template to process'', t)
      else
        (let tmpl = the (heliconeTemplate r) in
         case ensure_prompt E r t of
           Inl e \<Rightarrow> Inl e
         | Inr (p, t1) \<Rightarrow>
            (case latest_version E r p t1 of
               Inl e \<Rightarrow> Inl e
             | Inr (ev, t2) \<Rightarrow>
                (case resolve_version E r tmpl p ev t2 of
                   Inl e \<Rightarrow> Inl e
                 | Inr (versionId, t3) \<Rightarrow>
                    (case record_inputs E r tmpl versionId t3 of
                       Inl e \<Rightarrow> Inl e
                     | Inr t4 \<Rightarrow> Inr (ok ''Prompt processed successfully'', t4))))))"

section \<open>The batch writer\<close>

text \<open>The comparator of line 104.\<close>

definition compareCreatedAt :: "PromptRecord \<Rightarrow> PromptRecord \<Rightarrow> int" where
  "compareCreatedAt a b =
     (if truthy_Date (createdAt a) \<and> truthy_Date (createdAt b) then
        (if createdAt a < createdAt b then - 1
         else if createdAt a > createdAt b then 1
         else 0)
      else 0)"

text \<open>
  \<open>Array.prototype.sort\<close> with a comparator is a stable sort: an element goes before
  the first later element it does not compare greater than. For a comparator that is a
  consistent order this is the one result the language allows; for any other comparator
  the language leaves the result to the engine, and this is one such result.
\<close>

fun sort_insert :: "('a \<Rightarrow> 'a \<Rightarrow> int) \<Rightarrow> 'a \<Rightarrow> 'a list \<Rightarrow> 'a list" where
  "sort_insert cmp x [] = [x]"
| "sort_insert cmp x (y # ys) =
     (if cmp x y \<le> 0 then x # y # ys else y # sort_insert cmp x ys)"

definition Array_sort :: "('a \<Rightarrow> 'a \<Rightarrow> int) \<Rightarrow> 'a list \<Rightarrow> 'a list" where
  "Array_sort cmp xs = foldr (sort_insert cmp) xs []"

text \<open>One of the three guarded bulk statements of lines 81 to 102.\<close>

definition bulk_upsert ::
  "env \<Rightarrow> (row list \<Rightarrow> stmt) \<Rightarrow> string list \<Rightarrow> row list option
     \<Rightarrow> (database \<Rightarrow> row list) \<Rightarrow> (row list \<Rightarrow> database \<Rightarrow> database) \<Rightarrow> tx \<Rightarrow> exn + tx" where
  "bulk_upsert E mk cols input get put t =
     (case input of
        None \<Rightarrow> Inr t
      | Some xs \<Rightarrow>
         (if length xs > 0 then
            (case issue E (mk xs) t of
               Inl e \<Rightarrow> Inl e
             | Inr t1 \<Rightarrow>
                (case upsert_rows cols xs (get (db t1)) of
                   Inl e \<Rightarrow> Inl e
                 | Inr tbl \<Rightarrow> Inr (on_db (put tbl) t1)))
          else Inr t))"

definition put_request :: "row list \<Rightarrow> database \<Rightarrow> database" where
  "put_request tbl d = d\<lparr>request_tbl := tbl\<rparr>"

definition put_response :: "row list \<Rightarrow> database \<Rightarrow> database" where
  "put_response tbl d = d\<lparr>response_tbl := tbl\<rparr>"

definition put_properties :: "row list \<Rightarrow> database \<Rightarrow> database" where
  "put_properties tbl d = d\<lparr>properties_tbl := tbl\<rparr>"

text \<open>The loop of lines 116 to 122: lock, then resolve, record after record.\<close>

definition advisory_xact_lock :: "env \<Rightarrow> string \<Rightarrow> tx \<Rightarrow> exn + tx" where
  "advisory_xact_lock E k t =
     (case issue E (AdvisoryXactLock k) t of
        Inl e \<Rightarrow> Inl e
      | Inr t1 \<Rightarrow> Inr (t1\<lparr>locks := locks t1 @ [k]\<rparr>))"

fun processPrompts :: "env \<Rightarrow> PromptRecord list \<Rightarrow> tx \<Rightarrow> exn + tx" where
  "processPrompts E [] t = Inr t"
| "processPrompts E (r # rs) t =
     (case advisory_xact_lock E (promptId r) t of
        Inl e \<Rightarrow> Inl e
      | Inr t1 \<Rightarrow>
         (case processPrompt E r t1 of
            Inl e \<Rightarrow> Inl e
          | Inr (res, t2) \<Rightarrow> processPrompts E rs t2))"

text \<open>\<open>payload.prompts.sort(...)\<close>, line 104.\<close>

definition sorted_prompts :: "BatchPayload \<Rightarrow> PromptRecord list" where
  "sorted_prompts payload = Array_sort compareCreatedAt (prompts payload)"

text \<open>The callback handed to \<open>db.tx\<close>.\<close>

definition tx_body :: "env \<Rightarrow> BatchPayload \<Rightarrow> tx \<Rightarrow> exn + tx" where
  "tx_body E payload t =
     (case bulk_upsert E UpsertRequest requestColumns (requests payload)
             request_tbl put_request t of
        Inl e \<Rightarrow> Inl e
      | Inr t1 \<Rightarrow>
         (case bulk_upsert E UpsertResponse responseColumns (responses payload)
                 response_tbl put_response t1 of
            Inl e \<Rightarrow> Inl e
          | Inr t2 \<Rightarrow>
             (case bulk_upsert E UpsertProperties propertiesColumns (properties payload)
                     properties_tbl put_properties t2 of
                Inl e \<Rightarrow> Inl e
              | Inr t3 \<Rightarrow>
                 processPrompts E (sorted_prompts payload) t3)))"

text \<open>
  \<open>db.tx\<close>: begin, run the callback, commit; when the callback or a statement
  rejects, roll back, which leaves the tables as they were and releases the locks.
\<close>

definition db_tx :: "env \<Rightarrow> (tx \<Rightarrow> exn + tx) \<Rightarrow> database \<Rightarrow> (exn + unit) \<times> database" where
  "db_tx E body d =
     (case issue E Begin \<lparr>db = d, locks = [], issued = []\<rparr> of
        Inl e \<Rightarrow> (Inl e, d)
      | Inr t0 \<Rightarrow>
         (case body t0 of
            Inl e \<Rightarrow> (Inl e, d)
          | Inr t1 \<Rightarrow>
             (case issue E Commit t1 of
                Inl e \<Rightarrow> (Inl e, d)
              | Inr t2 \<Rightarrow> (Inr (), db t2))))"

text \<open>
  \<open>insertLogBatch\<close>: the \<open>try\<close> around \<open>db.tx\<close>. The value is the returned
  result and the database after the call. The line the \<open>catch\<close> writes to the console
  and the reordering of the caller's \<open>payload.prompts\<close> are left out.
\<close>

definition insertLogBatch :: "env \<Rightarrow> BatchPayload \<Rightarrow> database \<Rightarrow> string Result \<times> database" where
  "insertLogBatch E payload d =
     (case db_tx E (tx_body E payload) d of
        (Inr u, d') \<Rightarrow> (ok ''Successfully inserted log batch'', d')
      | (Inl e, d') \<Rightarrow> (err ''Failed to insert log batch'', d'))"

section \<open>The proxy chat endpoint\<close>

text \<open>The fields the handler reads from \<open>req.body\<close>.\<close>

record chat_body =
  b_messages :: "json option"
  b_requestId :: "json option"
  b_temperature :: "json option"
  b_model :: "json option"
  b_maxTokens :: "json option"

record auth_user =
  u_id :: string
  u_email :: "string option"

text \<open>
  What \<open>client.auth.getUser()\<close> returned: \<open>data\<close>, which may be absent, holding
  \<open>user\<close>, which may be null.
\<close>

record user_response =
  u_data :: "auth_user option option"

record create_params =
  c_model :: string
  c_max_tokens :: "json option"
  c_temperature :: "json option"
  c_user_id :: string
  c_messages :: "json option"

text \<open>
  The handler's reply and the calls it made to the model provider. The handler holds no
  store: its reply and these calls are all it does.
\<close>

record 'c reply =
  status :: nat
  body :: "'c Result"
  provider_calls :: "create_params list"

text \<open>
  \<open>DEMO_EMAIL\<close> of \<open>lib/constants\<close> and \<open>anthropic.messages.create\<close> are parameters;
  a rejected call carries the text \<open>`${err}`\<close> renders. The session lookup has returned
  \<open>user\<close> before the body is read. After the check of the body, line 35 reads
  \<open>user.data.user?.id\<close> for the client's headers, before line 41 tests
  \<open>user.data\<close>: on a response without \<open>data\<close> that read raises a TypeError and the
  handler sends no reply.
\<close>

definition handler ::
  "string \<Rightarrow> (create_params \<Rightarrow> string + 'c) \<Rightarrow> user_response \<Rightarrow> chat_body
     \<Rightarrow> exn + 'c reply" where
  "handler DEMO_EMAIL create user b =
     (if \<not> truthy (b_temperature b) \<or> \<not> truthy (b_model b) then
        Inr \<lparr>status = 400,
             body = \<lparr>data = None,
                     error = Some ''Bad request - missing required body parameters''\<rparr>,
             provider_calls = []\<rparr>
      else
        (case u_data user of
           None \<Rightarrow> Inl TypeError
         | Some None \<Rightarrow>
             Inr \<lparr>status = 401, body = \<lparr>data = None, error = Some ''Unauthorized''\<rparr>,
                  provider_calls = []\<rparr>
         | Some (Some u) \<Rightarrow>
             (if u_email u = Some DEMO_EMAIL then
                Inr \<lparr>status = 401, body = \<lparr>data = None, error = Some ''Unauthorized''\<rparr>,
                     provider_calls = []\<rparr>
              else
                (let params = \<lparr>c_model = ''claude-3-opus-20240229'',
                                c_max_tokens = b_maxTokens b,
                                c_temperature = b_temperature b,
                                c_user_id = u_id u,
                                c_messages = b_messages b\<rparr>
                 in case create params of
                      Inr completion \<Rightarrow>
                        Inr \<lparr>status = 200, body = \<lparr>data = Some completion, error = None\<rparr>,
                             provider_calls = [params]\<rparr>
                    | Inl e \<Rightarrow>
                        Inr \<lparr>status = 500, body = \<lparr>data = None, error = Some e\<rparr>,
                             provider_calls = [params]\<rparr>))))"

section \<open>The batch orchestrator\<close>

datatype console_line = Console_log string | Console_error string

text \<open>
  What \<open>processLogEntries\<close> leaves behind: the world its collaborators act on (the
  accumulators and the stores behind them) and the console.
\<close>

record 'w outcome =
  world :: 'w
  console :: "console_line list"

text \<open>
  Parameters: \<open>fan_out\<close> is \<open>Promise.all\<close> over the per-message runs of the handler
  chain (it fulfils once every run has, and rejects when one does);
  \<open>logCommit\<close> and \<open>rateLimitCommit\<close> are the two \<open>handleResults\<close>. Each may
  reject (\<open>Inl\<close>) or return.
\<close>

definition processLogEntries ::
  "('m list \<Rightarrow> 'w \<Rightarrow> string + 'w)
     \<Rightarrow> ('w \<Rightarrow> string + (string Result \<times> 'w))
     \<Rightarrow> ('w \<Rightarrow> string + (json Result \<times> 'w))
     \<Rightarrow> 'm list \<Rightarrow> string \<Rightarrow> 'w \<Rightarrow> string + 'w outcome" where
  "processLogEntries fan_out logCommit rateLimitCommit logMessages batchId w =
     (case fan_out logMessages w of
        Inl e \<Rightarrow> Inl e
      | Inr w1 \<Rightarrow>
         (let c1 = [Console_log (''Finished processing batch '' @ batchId)] in
          case logCommit w1 of
            Inl e \<Rightarrow> Inl e
          | Inr (upsertResult, w2) \<Rightarrow>
             (let c2 = (if truthy_string (error upsertResult)
                        then c1 @ [Console_error (''Error inserting logs: ''
                                     @ template_literal (error upsertResult)
                                     @ '' for batch '' @ batchId)]
                        else c1) in
              case rateLimitCommit w2 of
                Inl e \<Rightarrow> Inl e
              | Inr (rl, w3) \<Rightarrow>
                 (let c3 = (if truthy_string (error rl) \<or> \<not> truthy (data rl)
                            then c2 @ [Console_error (''Error inserting rate limits: ''
                                         @ template_literal (error rl)
                                         @ '' for batch '' @ batchId)]
                            else c2)
                  in Inr \<lparr>world = w3, console = c3\<rparr>))))"

section \<open>Notions the properties are stated with\<close>

text \<open>
  The prompt row a record resolves to in a database: the row the lookup of line 144
  finds, or the row line 151 would create.
\<close>

definition prompt_row_for :: "env \<Rightarrow> PromptRecord \<Rightarrow> database \<Rightarrow> prompt_v2_row" where
  "prompt_row_for E r d =
     (case select_prompt d (orgId r) (promptId r) of
        [] \<Rightarrow> \<lparr>p_id = new_id E (map p_id (prompt_v2 d)),
                p_user_defined_id = promptId r,
                p_organization = orgId r,
                p_created_at = createdAt r\<rparr>
      | p # ps \<Rightarrow> p)"

text \<open>The row the query of line 160 returns, if any.\<close>

definition current_version :: "database \<Rightarrow> string \<Rightarrow> string \<Rightarrow> prompts_versions_row option" where
  "current_version d org pid =
     (case select_latest_version d org pid of [] \<Rightarrow> None | v # vs \<Rightarrow> Some v)"

text \<open>The latest version of the record's prompt.\<close>

definition latest_for :: "env \<Rightarrow> PromptRecord \<Rightarrow> database \<Rightarrow> prompts_versions_row option" where
  "latest_for E r d = current_version d (orgId r) (p_id (prompt_row_for E r d))"

text \<open>The value of \<open>versionId\<close> at line 200.\<close>

definition resolved_version_id :: "env \<Rightarrow> PromptRecord \<Rightarrow> database \<Rightarrow> string" where
  "resolved_version_id E r d =
     (let tmpl = the (heliconeTemplate r);
          p = prompt_row_for E r d;
          ev = current_version d (orgId r) (p_id p)
      in if update_necessary E r tmpl ev then v_id (new_version E r tmpl p ev d)
         else (case ev of Some v \<Rightarrow> v_id v | None \<Rightarrow> []))"

text \<open>The database hands out no empty id, and holds none.\<close>

definition ids_nonempty :: "env \<Rightarrow> bool" where
  "ids_nonempty E = (\<forall>ids. new_id E ids \<noteq> [])"

definition version_ids_nonempty :: "database \<Rightarrow> bool" where
  "version_ids_nonempty d = (\<forall>v\<in>set (prompts_versions d). v_id v \<noteq> [])"

text \<open>Dates with a time value, and lists of dates in which no date comes after a later one.\<close>

fun Date_valid :: "Date \<Rightarrow> bool" where
  "Date_valid (Time a) = True"
| "Date_valid Invalid_Date = False"

fun time_of :: "Date \<Rightarrow> int" where
  "time_of (Time a) = a"
| "time_of Invalid_Date = 0"

fun ascending :: "Date list \<Rightarrow> bool" where
  "ascending [] = True"
| "ascending (d # ds) = ((\<forall>e\<in>set ds. \<not> e < d) \<and> ascending ds)"

text \<open>
  The resolution procedure, step by step, as a function of the record and the database it
  meets: the statements it sends when none is refused, and the database it leaves.
  Step 1 looks the prompt up and creates it when absent; step 2 fetches the latest
  version; steps 3 and 4 mint a version when the update is necessary; step 5 records the
  input keys and appends the input record under the resolved version id, when that id is
  not empty.
\<close>

definition keys_of :: "json \<Rightarrow> string list" where
  "keys_of tmpl = (case Object_keys (template_inputs tmpl) of Inr ks \<Rightarrow> ks | Inl e \<Rightarrow> [])"

definition input_record_for :: "env \<Rightarrow> PromptRecord \<Rightarrow> database \<Rightarrow> prompt_input_record_row" where
  "input_record_for E r d =
     \<lparr>r_inputs = the (template_inputs (the (heliconeTemplate r))),
      r_source_request = requestId r,
      r_prompt_version = resolved_version_id E r d,
      r_created_at = createdAt r\<rparr>"

definition resolution_statements :: "env \<Rightarrow> PromptRecord \<Rightarrow> database \<Rightarrow> stmt list" where
  "resolution_statements E r d =
     (if \<not> truthy (heliconeTemplate r) then []
      else
        (let tmpl = the (heliconeTemplate r);
             p = prompt_row_for E r d;
             ev = latest_for E r d;
             vid = resolved_version_id E r d
         in SelectPrompt (orgId r) (promptId r) #
            (if select_prompt d (orgId r) (promptId r) = []
             then [InsertPrompt (promptId r) (orgId r) (createdAt r)] else []) @
            [SelectLatestVersion (orgId r) (p_id p)] @
            (if update_necessary E r tmpl ev
             then [InsertVersion (p_id p) (orgId r)
                     (case ev of Some v \<Rightarrow> v_major_version v + 1 | None \<Rightarrow> 0)
                     tmpl (model r) (createdAt r)]
             else []) @
            (if vid \<noteq> []
             then [InsertInputKeys (keys_of tmpl) vid (createdAt r),
                   InsertInputRecord (the (template_inputs tmpl)) (requestId r) vid (createdAt r)]
             else [])))"

definition resolution_result :: "env \<Rightarrow> PromptRecord \<Rightarrow> database \<Rightarrow> database" where
  "resolution_result E r d =
     (if \<not> truthy (heliconeTemplate r) then d
      else
        (let tmpl = the (heliconeTemplate r);
             p = prompt_row_for E r d;
             ev = latest_for E r d;
             vid = resolved_version_id E r d;
             d1 = (if select_prompt d (orgId r) (promptId r) = [] then insert_prompt p d else d);
             d2 = (if update_necessary E r tmpl ev
                   then insert_version (new_version E r tmpl p ev d) d1 else d1)
         in if vid \<noteq> []
            then insert_input_record (input_record_for E r d)
                   (insert_input_keys (keys_of tmpl) vid (createdAt r) d2)
            else d2))"

text \<open>
  The loop over a list of records: for each record its lock, then its resolution on the
  database the records before it left.
\<close>

fun batch_statements :: "env \<Rightarrow> PromptRecord list \<Rightarrow> database \<Rightarrow> stmt list" where
  "batch_statements E [] d = []"
| "batch_statements E (r # rs) d =
     AdvisoryXactLock (promptId r) # resolution_statements E r d @
       batch_statements E rs (resolution_result E r d)"

fun batch_result :: "env \<Rightarrow> PromptRecord list \<Rightarrow> database \<Rightarrow> database" where
  "batch_result E [] d = d"
| "batch_result E (r # rs) d = batch_result E rs (resolution_result E r d)"

text \<open>One input record per record, each under the version id resolved when its turn came.\<close>

fun batch_input_records ::
  "env \<Rightarrow> PromptRecord list \<Rightarrow> database \<Rightarrow> prompt_input_record_row list" where
  "batch_input_records E [] d = []"
| "batch_input_records E (r # rs) d =
     input_record_for E r d # batch_input_records E rs (resolution_result E r d)"

text \<open>Kinds of statements.\<close>

fun is_bulk :: "stmt \<Rightarrow> bool" where
  "is_bulk (UpsertRequest xs) = True"
| "is_bulk (UpsertResponse xs) = True"
| "is_bulk (UpsertProperties xs) = True"
| "is_bulk s = False"

definition input_rows :: "row list option \<Rightarrow> row list" where
  "input_rows i = (case i of None \<Rightarrow> [] | Some xs \<Rightarrow> xs)"

definition bulk_statements :: "BatchPayload \<Rightarrow> stmt list" where
  "bulk_statements p =
     (if input_rows (requests p) = [] then [] else [UpsertRequest (input_rows (requests p))]) @
     (if input_rows (responses p) = [] then [] else [UpsertResponse (input_rows (responses p))]) @
     (if input_rows (properties p) = [] then []
      else [UpsertProperties (input_rows (properties p))])"

text \<open>The database the three bulk statements leave, when none is refused.\<close>

definition bulk_result :: "BatchPayload \<Rightarrow> database \<Rightarrow> database" where
  "bulk_result p d =
     (let d1 = put_request
                 (fold (upsert_row requestColumns) (input_rows (requests p)) (request_tbl d)) d;
          d2 = put_response
                 (fold (upsert_row responseColumns) (input_rows (responses p)) (response_tbl d1)) d1
      in put_properties
           (fold (upsert_row propertiesColumns) (input_rows (properties p)) (properties_tbl d2)) d2)"

text \<open>
  What an upsert of \<open>xs\<close> makes of a table: keys stay unique; each incoming row is stored
  once, with the incoming value in every listed column but \<open>id\<close>, the id and the unlisted
  columns of the row it replaced; rows of other keys are as before.
\<close>

definition upserted :: "string list \<Rightarrow> row list \<Rightarrow> row list \<Rightarrow> row list \<Rightarrow> bool" where
  "upserted cols xs before after =
     (distinct (map row_id after) \<and>
      (\<forall>x\<in>set xs. \<exists>y. filter (\<lambda>y. row_id y = row_id x) after = [y] \<and>
           (\<forall>c\<in>set cols. c \<noteq> ''id'' \<longrightarrow> y c = x c) \<and>
           (\<forall>old\<in>set before. row_id old = row_id x \<longrightarrow>
               y ''id'' = old ''id'' \<and> (\<forall>c. c \<notin> set cols \<longrightarrow> y c = old c))) \<and>
      (\<forall>i. i \<notin> row_id ` set xs \<longrightarrow>
           filter (\<lambda>y. row_id y = i) after = filter (\<lambda>y. row_id y = i) before) \<and>
      (xs = [] \<longrightarrow> after = before))"

text \<open>The row an upsert of \<open>x\<close> leaves under the key of \<open>x\<close>.\<close>

definition stored_row :: "string list \<Rightarrow> row \<Rightarrow> row list \<Rightarrow> row" where
  "stored_row cols x tbl =
     (case filter (\<lambda>old. row_id old = row_id x) tbl of
        [] \<Rightarrow> inserted_row cols x
      | old # rest \<Rightarrow> updated_row cols x old)"

text \<open>The transaction as \<open>db.tx\<close> hands it to the callback.\<close>

definition begun :: "database \<Rightarrow> tx" where
  "begun d = \<lparr>db = d, locks = [], issued = [Begin]\<rparr>"

section \<open>Example inputs\<close>

text \<open>
  A database that accepts every statement, compares templates by equality and names
  the \<open>n\<close>-th row of a table by \<open>n\<close> letters.
\<close>

definition demo_env :: env where
  "demo_env = \<lparr>deepCompare = (\<lambda>a b. a = b),
               new_id = (\<lambda>ids. replicate (Suc (length ids)) (CHR ''v'')),
               rejects = (\<lambda>h s. False)\<rparr>"

definition empty_database :: database where
  "empty_database = \<lparr>request_tbl = [], response_tbl = [], properties_tbl = [], prompt_v2 = [],
     prompts_versions = [], prompt_input_keys = [], prompt_input_record = []\<rparr>"

definition template_a :: json where
  "template_a = JObj [(''template'', JStr ''Hi''), (''inputs'', JObj [(''name'', JStr ''Ada'')])]"

definition template_b :: json where
  "template_b = JObj [(''template'', JStr ''Bye''), (''inputs'', JObj [(''name'', JStr ''Bob'')])]"

definition template_c :: json where
  "template_c = JObj [(''template'', JStr ''No inputs here'')]"

definition record_a :: PromptRecord where
  "record_a = \<lparr>promptId = ''greet'', orgId = ''org'', requestId = ''req-a'',
      heliconeTemplate = Some template_a, model = Some ''m'', createdAt = Time 100\<rparr>"

definition record_b :: PromptRecord where
  "record_b = \<lparr>promptId = ''greet'', orgId = ''org'', requestId = ''req-b'',
      heliconeTemplate = Some template_b, model = Some ''m'', createdAt = Time 200\<rparr>"

definition record_c :: PromptRecord where
  "record_c = \<lparr>promptId = ''other'', orgId = ''org'', requestId = ''req-c'',
      heliconeTemplate = Some template_c, model = None, createdAt = Time 300\<rparr>"

definition record_d :: PromptRecord where
  "record_d = \<lparr>promptId = ''greet'', orgId = ''org'', requestId = ''req-d'',
      heliconeTemplate = Some template_a, model = Some ''m'', createdAt = Time 400\<rparr>"

definition record_e :: PromptRecord where
  "record_e = \<lparr>promptId = ''farewell'', orgId = ''org'', requestId = ''req-e'',
      heliconeTemplate = Some template_b, model = None, createdAt = Time 100\<rparr>"

definition record_x :: PromptRecord where
  "record_x = \<lparr>promptId = ''broken'', orgId = ''org'', requestId = ''req-x'',
      heliconeTemplate = None, model = None, createdAt = Invalid_Date\<rparr>"

definition version_b :: prompts_versions_row where
  "version_b = \<lparr>v_id = ''v'', v_prompt_v2 = ''v'', v_organization = ''org'',
      v_major_version = 0, v_minor_version = 0, v_helicone_template = template_b,
      v_model = Some ''m'', v_created_at = Time 200\<rparr>"

definition row_one :: row where
  "row_one = (\<lambda>c. if c = ''id'' then Some (JStr ''r1'')
                  else if c \<in> set requestColumns then Some (JStr ''one'') else None)"

definition row_two :: row where
  "row_two = (\<lambda>c. if c = ''id'' then Some (JStr ''r1'')
                  else if c \<in> set requestColumns then Some (JStr ''two'') else None)"

definition database_one :: database where
  "database_one = empty_database\<lparr>request_tbl := [row_one]\<rparr>"

definition payload_prompts :: BatchPayload where
  "payload_prompts = \<lparr>requests = None, responses = Some [], properties = None,
      prompts = [record_b, record_a, record_e]\<rparr>"

definition payload_invalid :: BatchPayload where
  "payload_invalid = \<lparr>requests = None, responses = None, properties = None,
      prompts = [record_b, record_x, record_e]\<rparr>"

definition payload_rows :: BatchPayload where
  "payload_rows = \<lparr>requests = Some [row_two], responses = None, properties = Some [],
      prompts = []\<rparr>"

definition payload_failing :: BatchPayload where
  "payload_failing = \<lparr>requests = Some [row_two], responses = None, properties = None,
      prompts = [record_d, record_b, record_c, record_a]\<rparr>"

text \<open>The transaction a run leaves, for runs that return.\<close>

definition resulting_tx :: "exn + tx \<Rightarrow> tx" where
  "resulting_tx x = (case x of Inr t \<Rightarrow> t | Inl e \<Rightarrow> begun empty_database)"

definition after_a :: tx where
  "after_a = resulting_tx (map_sum id snd (processPrompt demo_env record_a (begun empty_database)))"

definition after_a_d :: tx where
  "after_a_d = resulting_tx (map_sum id snd (processPrompt demo_env record_d after_a))"

definition after_b :: tx where
  "after_b = resulting_tx (map_sum id snd (processPrompt demo_env record_b (begun empty_database)))"

definition after_b_a :: tx where
  "after_b_a = resulting_tx (map_sum id snd (processPrompt demo_env record_a after_b))"

definition after_batch :: tx where
  "after_batch = resulting_tx (tx_body demo_env payload_prompts (begun empty_database))"

definition after_invalid :: tx where
  "after_invalid = resulting_tx (tx_body demo_env payload_invalid (begun empty_database))"

definition after_rows :: tx where
  "after_rows = resulting_tx (tx_body demo_env payload_rows (begun database_one))"

text \<open>A chat request without a temperature, and one that is complete.\<close>

definition body_without_temperature :: chat_body where
  "body_without_temperature =
     \<lparr>b_messages = Some (JArr []), b_requestId = Some (JStr ''q1''), b_temperature = None,
      b_model = Some (JStr ''claude-3-haiku''), b_maxTokens = Some (JNum 256)\<rparr>"

definition body_complete :: chat_body where
  "body_complete =
     \<lparr>b_messages = Some (JArr []), b_requestId = Some (JStr ''q1''),
      b_temperature = Some (JNum (7 / 10)),
      b_model = Some (JStr ''claude-3-haiku''), b_maxTokens = Some (JNum 256)\<rparr>"

definition demo_user :: user_response where
  "demo_user = \<lparr>u_data = Some (Some \<lparr>u_id = ''u1'', u_email = Some ''ada@example.org''\<rparr>)\<rparr>"

definition demo_create :: "create_params \<Rightarrow> string + string" where
  "demo_create p = Inr (''completion by '' @ c_model p)"

text \<open>Collaborators of the orchestrator that write their name into the world.\<close>

definition demo_fan_out :: "string list \<Rightarrow> string list \<Rightarrow> string + string list" where
  "demo_fan_out ms w = Inr (w @ map (\<lambda>m. ''run '' @ m) ms)"

definition failing_logCommit :: "string list \<Rightarrow> string + (string Result \<times> string list)" where
  "failing_logCommit w = Inr (err ''Failed to insert log batch'', w @ [''log commit''])"

definition demo_rateLimitCommit :: "string list \<Rightarrow> string + (json Result \<times> string list)" where
  "demo_rateLimitCommit w = Inr (ok (JStr ''rl-1''), w @ [''rate-limit commit''])"

section \<open>Properties of the store\<close>

lemmas resolver_defs =
  processPrompt_def ensure_prompt_def latest_version_def resolve_version_def record_inputs_def
  issue_def select_prompt_def select_latest_version_def on_db_def insert_prompt_def
  insert_version_def insert_input_keys_def insert_input_key_def insert_input_record_def
  new_version_def update_necessary_def Let_def ok_def err_def

lemmas writer_defs =
  tx_body_def bulk_upsert_def sorted_prompts_def Array_sort_def compareCreatedAt_def
  truthy_Date_def advisory_xact_lock_def upsert_rows_def put_request_def put_response_def
  put_properties_def begun_def resulting_tx_def

lemmas demo_defs =
  demo_env_def empty_database_def template_a_def template_b_def template_c_def record_a_def
  record_b_def record_c_def record_d_def record_e_def record_x_def version_b_def
  payload_prompts_def payload_invalid_def payload_rows_def payload_failing_def database_one_def

lemma issue_Inr: "issue E s t = Inr t' \<longleftrightarrow> \<not> rejects E (issued t) s \<and> t' = t\<lparr>issued := issued t @ [s]\<rparr>"
  by (auto simp: issue_def)

lemma issue_Inl: "issue E s t = Inl e \<longleftrightarrow> rejects E (issued t) s \<and> e = DatabaseError"
  by (auto simp: issue_def)

lemma oneOrNone_None: "oneOrNone xs = Inr None \<longleftrightarrow> xs = []"
  by (cases xs rule: oneOrNone.cases) auto

lemma oneOrNone_Some: "oneOrNone xs = Inr (Some x) \<longleftrightarrow> xs = [x]"
  by (cases xs rule: oneOrNone.cases) auto

lemma Date_less_not_le: "(a::Date) < b \<Longrightarrow> \<not> b \<le> a"
  by (cases a; cases b) auto

lemma mset_sort_insert: "mset (sort_insert cmp x ys) = add_mset x (mset ys)"
  by (induction ys) auto

lemma mset_Array_sort: "mset (Array_sort cmp xs) = mset xs"
  by (induction xs) (simp_all add: Array_sort_def mset_sort_insert)

lemma set_Array_sort: "set (Array_sort cmp xs) = set xs"
  using mset_Array_sort [of cmp xs] by (metis set_mset_mset)

lemma compareCreatedAt_valid:
  "Date_valid (createdAt x) \<Longrightarrow> Date_valid (createdAt y) \<Longrightarrow>
   (compareCreatedAt x y \<le> 0) = (time_of (createdAt x) \<le> time_of (createdAt y))"
  by (cases "createdAt x"; cases "createdAt y") (auto simp: compareCreatedAt_def truthy_Date_def)

lemma sort_insert_valid:
  "Date_valid (createdAt x) \<Longrightarrow> \<forall>y\<in>set ys. Date_valid (createdAt y) \<Longrightarrow>
   sort_insert compareCreatedAt x ys = insort_key (\<lambda>r. time_of (createdAt r)) x ys"
  by (induction ys) (simp_all add: compareCreatedAt_valid)

lemma Array_sort_valid:
  "\<forall>x\<in>set xs. Date_valid (createdAt x) \<Longrightarrow>
   Array_sort compareCreatedAt xs = sort_key (\<lambda>r. time_of (createdAt r)) xs"
proof (induction xs)
  case Nil
  then show ?case by (simp add: Array_sort_def)
next
  case (Cons x xs)
  then have ih: "Array_sort compareCreatedAt xs = sort_key (\<lambda>r. time_of (createdAt r)) xs"
    and vx: "Date_valid (createdAt x)"
    and vs: "\<forall>y\<in>set (sort_key (\<lambda>r. time_of (createdAt r)) xs). Date_valid (createdAt y)"
    by simp_all
  have "Array_sort compareCreatedAt (x # xs) =
          sort_insert compareCreatedAt x (Array_sort compareCreatedAt xs)"
    by (simp add: Array_sort_def)
  also have "\<dots> = insort_key (\<lambda>r. time_of (createdAt r)) x
                      (sort_key (\<lambda>r. time_of (createdAt r)) xs)"
    unfolding ih by (rule sort_insert_valid [OF vx vs])
  finally show ?case by simp
qed

lemma ascending_valid:
  "\<forall>d\<in>set ds. Date_valid d \<Longrightarrow> sorted (map time_of ds) \<Longrightarrow> ascending ds"
proof (induction ds)
  case Nil
  then show ?case by simp
next
  case (Cons d ds)
  have "\<forall>e\<in>set ds. \<not> e < d"
  proof
    fix e assume e: "e \<in> set ds"
    with Cons.prems have "time_of d \<le> time_of e" "Date_valid d" "Date_valid e" by auto
    then show "\<not> e < d" by (cases d; cases e) auto
  qed
  with Cons show ?case by simp
qed

lemma ensure_prompt_Inr:
  assumes "ensure_prompt E r t = Inr (p, t')"
  shows "p = prompt_row_for E r (db t) \<and> locks t' = locks t \<and>
         (\<exists>ss. issued t' = issued t @ SelectPrompt (orgId r) (promptId r) # ss
               \<and> (\<forall>s\<in>set ss. \<exists>a b c. s = InsertPrompt a b c)) \<and>
         (db t' = db t \<or> db t' = insert_prompt p (db t))"
  using assms
  by (auto simp: ensure_prompt_def prompt_row_for_def issue_Inr oneOrNone_None oneOrNone_Some on_db_def Let_def
      split: sum.splits option.splits)

lemma oneOrNone_latest:
  "oneOrNone (select_latest_version d org pid) = Inr (current_version d org pid)"
proof -
  have "length (select_latest_version d org pid) \<le> 1"
    by (simp add: select_latest_version_def)
  then show ?thesis
    by (cases "select_latest_version d org pid" rule: oneOrNone.cases)
       (auto simp: current_version_def)
qed

lemma latest_version_Inr:
  assumes "latest_version E r p t = Inr (ev, t')"
  shows "ev = current_version (db t) (orgId r) (p_id p) \<and>
         t' = t\<lparr>issued := issued t @ [SelectLatestVersion (orgId r) (p_id p)]\<rparr>"
  using assms
  by (auto simp: latest_version_def issue_Inr oneOrNone_latest split: sum.splits)

lemma resolve_version_Inr:
  assumes "resolve_version E r tmpl p ev t = Inr (vid, t')"
  shows "locks t' = locks t \<and>
         (if update_necessary E r tmpl ev
          then vid = v_id (new_version E r tmpl p ev (db t)) \<and>
               db t' = insert_version (new_version E r tmpl p ev (db t)) (db t) \<and>
               (\<exists>a b c d e f. issued t' = issued t @ [InsertVersion a b c d e f])
          else vid = (case ev of Some v \<Rightarrow> v_id v | None \<Rightarrow> []) \<and> t' = t)"
  using assms
  by (auto simp: resolve_version_def issue_Inr on_db_def Let_def split: sum.splits if_splits)

lemma record_inputs_Inr:
  assumes "record_inputs E r tmpl vid t = Inr t'"
  shows "locks t' = locks t \<and>
         (if vid \<noteq> []
          then (\<exists>ks. Object_keys (template_inputs tmpl) = Inr ks \<and>
                 db t' = insert_input_record
                           \<lparr>r_inputs = the (template_inputs tmpl),
                            r_source_request = requestId r,
                            r_prompt_version = vid,
                            r_created_at = createdAt r\<rparr>
                           (insert_input_keys ks vid (createdAt r) (db t)) \<and>
                 issued t' = issued t @ [InsertInputKeys ks vid (createdAt r),
                    InsertInputRecord (the (template_inputs tmpl)) (requestId r) vid (createdAt r)])
          else t' = t)"
  using assms
  by (auto simp: record_inputs_def issue_Inr on_db_def Let_def split: sum.splits if_splits)


lemma current_version_cong:
  "prompts_versions d' = prompts_versions d \<Longrightarrow> current_version d' = current_version d"
  by (simp add: current_version_def select_latest_version_def fun_eq_iff)

lemma new_version_cong:
  "prompts_versions d' = prompts_versions d \<Longrightarrow>
   new_version E r tmpl p ev d' = new_version E r tmpl p ev d"
  by (simp add: new_version_def)

lemma processPrompt_Inr:
  assumes "processPrompt E r t = Inr (res, t')" and "truthy (heliconeTemplate r)"
  shows "\<exists>t1 t2 t3.
           ensure_prompt E r t = Inr (prompt_row_for E r (db t), t1) \<and>
           latest_version E r (prompt_row_for E r (db t)) t1 =
             Inr (current_version (db t) (orgId r) (p_id (prompt_row_for E r (db t))), t2) \<and>
           resolve_version E r (the (heliconeTemplate r)) (prompt_row_for E r (db t))
               (current_version (db t) (orgId r) (p_id (prompt_row_for E r (db t)))) t2 =
             Inr (resolved_version_id E r (db t), t3) \<and>
           prompts_versions (db t2) = prompts_versions (db t) \<and>
           prompt_input_record (db t2) = prompt_input_record (db t) \<and>
           record_inputs E r (the (heliconeTemplate r)) (resolved_version_id E r (db t)) t3 = Inr t' \<and>
           res = ok ''Prompt processed successfully''"
proof -
  let ?tmpl = "the (heliconeTemplate r)"
  from assms obtain p t1 ev t2 vid t3 where
    a: "ensure_prompt E r t = Inr (p, t1)" and
    b: "latest_version E r p t1 = Inr (ev, t2)" and
    c: "resolve_version E r ?tmpl p ev t2 = Inr (vid, t3)" and
    d: "record_inputs E r ?tmpl vid t3 = Inr t'" and
    e: "res = ok ''Prompt processed successfully''"
    by (auto simp: processPrompt_def Let_def split: sum.splits prod.splits)
  from ensure_prompt_Inr [OF a] have p: "p = prompt_row_for E r (db t)"
    and d1: "db t1 = db t \<or> db t1 = insert_prompt p (db t)" by auto
  from d1 have v1: "prompts_versions (db t1) = prompts_versions (db t)"
    and i1: "prompt_input_record (db t1) = prompt_input_record (db t)"
    by (auto simp: insert_prompt_def)
  from latest_version_Inr [OF b] have ev1: "ev = current_version (db t1) (orgId r) (p_id p)"
    and t2: "db t2 = db t1" by auto
  from ev1 have ev: "ev = current_version (db t) (orgId r) (p_id p)"
    by (simp add: current_version_cong [OF v1])
  from t2 v1 i1 have v2: "prompts_versions (db t2) = prompts_versions (db t)"
    and i2: "prompt_input_record (db t2) = prompt_input_record (db t)" by auto
  from resolve_version_Inr [OF c] have
    "vid = (if update_necessary E r ?tmpl ev then v_id (new_version E r ?tmpl p ev (db t2))
            else (case ev of Some v \<Rightarrow> v_id v | None \<Rightarrow> []))"
    by (auto split: if_splits)
  with v2 have vid: "vid = resolved_version_id E r (db t)"
    by (simp add: resolved_version_id_def Let_def p [symmetric] ev [symmetric]
        new_version_cong [OF v2])
  from a p have a': "ensure_prompt E r t = Inr (prompt_row_for E r (db t), t1)" by simp
  from b p ev have b': "latest_version E r (prompt_row_for E r (db t)) t1 =
             Inr (current_version (db t) (orgId r) (p_id (prompt_row_for E r (db t))), t2)" by simp
  from c p ev vid have c': "resolve_version E r (the (heliconeTemplate r)) (prompt_row_for E r (db t))
               (current_version (db t) (orgId r) (p_id (prompt_row_for E r (db t)))) t2 =
             Inr (resolved_version_id E r (db t), t3)" by simp
  from d vid have d': "record_inputs E r (the (heliconeTemplate r)) (resolved_version_id E r (db t)) t3 = Inr t'"
    by simp
  show ?thesis using a' b' c' d' e v2 i2 by blast
qed

lemma processPrompt_versions:
  assumes "processPrompt E r t = Inr (res, t')" and "truthy (heliconeTemplate r)"
  shows "prompts_versions (db t') =
          (if update_necessary E r (the (heliconeTemplate r))
                (current_version (db t) (orgId r) (p_id (prompt_row_for E r (db t))))
           then prompts_versions (db t) @
                  [new_version E r (the (heliconeTemplate r)) (prompt_row_for E r (db t))
                     (current_version (db t) (orgId r) (p_id (prompt_row_for E r (db t)))) (db t)]
           else prompts_versions (db t))"
proof -
  from processPrompt_Inr [OF assms] obtain t2 t3 where
    c: "resolve_version E r (the (heliconeTemplate r)) (prompt_row_for E r (db t))
               (current_version (db t) (orgId r) (p_id (prompt_row_for E r (db t)))) t2 =
             Inr (resolved_version_id E r (db t), t3)" and
    v2: "prompts_versions (db t2) = prompts_versions (db t)" and
    d: "record_inputs E r (the (heliconeTemplate r)) (resolved_version_id E r (db t)) t3 = Inr t'"
    by blast
  from record_inputs_Inr [OF d] have "prompts_versions (db t') = prompts_versions (db t3)"
    by (auto simp: insert_input_record_def insert_input_keys_def split: if_splits)
  moreover from resolve_version_Inr [OF c] v2 have
    "prompts_versions (db t3) =
          (if update_necessary E r (the (heliconeTemplate r))
                (current_version (db t) (orgId r) (p_id (prompt_row_for E r (db t))))
           then prompts_versions (db t) @
                  [new_version E r (the (heliconeTemplate r)) (prompt_row_for E r (db t))
                     (current_version (db t) (orgId r) (p_id (prompt_row_for E r (db t)))) (db t)]
           else prompts_versions (db t))"
    by (auto simp: insert_version_def new_version_cong [OF v2] split: if_splits)
  ultimately show ?thesis by simp
qed

lemma processPrompt_input_record:
  assumes "processPrompt E r t = Inr (res, t')" and "truthy (heliconeTemplate r)"
  shows "prompt_input_record (db t') =
          (if resolved_version_id E r (db t) \<noteq> []
           then prompt_input_record (db t) @
                  [\<lparr>r_inputs = the (template_inputs (the (heliconeTemplate r))),
                    r_source_request = requestId r,
                    r_prompt_version = resolved_version_id E r (db t),
                    r_created_at = createdAt r\<rparr>]
           else prompt_input_record (db t))"
proof -
  from processPrompt_Inr [OF assms] obtain t2 t3 where
    c: "resolve_version E r (the (heliconeTemplate r)) (prompt_row_for E r (db t))
               (current_version (db t) (orgId r) (p_id (prompt_row_for E r (db t)))) t2 =
             Inr (resolved_version_id E r (db t), t3)" and
    i2: "prompt_input_record (db t2) = prompt_input_record (db t)" and
    d: "record_inputs E r (the (heliconeTemplate r)) (resolved_version_id E r (db t)) t3 = Inr t'"
    by blast
  from resolve_version_Inr [OF c] i2 have "prompt_input_record (db t3) = prompt_input_record (db t)"
    by (auto simp: insert_version_def split: if_splits)
  with record_inputs_Inr [OF d] show ?thesis
    by (auto simp: insert_input_record_def insert_input_keys_def split: if_splits)
qed

lemma sorted_hd_least:
  "sorted (map f ys) \<Longrightarrow> y \<in> set ys \<Longrightarrow> f (hd ys) \<le> f y"
  by (cases ys) auto

lemma current_version_Some:
  assumes "current_version d org pid = Some v"
  shows "v \<in> set (prompts_versions d) \<and> v_organization v = org \<and> v_prompt_v2 v = pid \<and>
         (\<forall>w\<in>set (prompts_versions d). v_organization w = org \<and> v_prompt_v2 w = pid
             \<longrightarrow> v_major_version w \<le> v_major_version v)"
proof -
  let ?xs = "filter (\<lambda>v. v_organization v = org \<and> v_prompt_v2 v = pid) (prompts_versions d)"
  let ?f = "\<lambda>v. - v_major_version v"
  obtain ys where ys: "sort_key ?f ?xs = v # ys"
    using assms
    by (cases "sort_key ?f ?xs") (simp_all add: current_version_def select_latest_version_def)
  have "set (sort_key ?f ?xs) = set ?xs" by simp
  then have sx: "set ?xs = insert v (set ys)" unfolding ys by simp
  then have vin: "v \<in> set ?xs" by blast
  have "sorted (map ?f (sort_key ?f ?xs))" by (rule sorted_sort_key)
  then have "\<forall>y\<in>set ys. ?f v \<le> ?f y" unfolding ys by simp
  with sx have "\<forall>w\<in>set ?xs. v_major_version w \<le> v_major_version v" by auto
  with vin show ?thesis by auto
qed

lemma current_version_None:
  "current_version d org pid = None \<longleftrightarrow>
   (\<forall>w\<in>set (prompts_versions d). \<not> (v_organization w = org \<and> v_prompt_v2 w = pid))"
proof -
  have "current_version d org pid = None \<longleftrightarrow>
        sort_key (\<lambda>v. - v_major_version v)
          (filter (\<lambda>v. v_organization v = org \<and> v_prompt_v2 v = pid) (prompts_versions d)) = []"
    by (cases "sort_key (\<lambda>v. - v_major_version v)
          (filter (\<lambda>v. v_organization v = org \<and> v_prompt_v2 v = pid) (prompts_versions d))")
       (simp_all add: current_version_def select_latest_version_def)
  also have "\<dots> \<longleftrightarrow> filter (\<lambda>v. v_organization v = org \<and> v_prompt_v2 v = pid) (prompts_versions d) = []"
    using length_sort [of "\<lambda>v. - v_major_version v"
          "filter (\<lambda>v. v_organization v = org \<and> v_prompt_v2 v = pid) (prompts_versions d)"]
    by (simp only: length_0_conv [symmetric])
  finally show ?thesis by (auto simp: filter_empty_conv)
qed

lemma current_version_minted:
  assumes ev: "current_version d org pid = ev"
    and nv: "v_organization nv = org" "v_prompt_v2 nv = pid"
            "v_major_version nv = (case ev of Some v \<Rightarrow> v_major_version v + 1 | None \<Rightarrow> 0)"
  shows "current_version (insert_version nv d) org pid = Some nv"
proof -
  let ?d = "insert_version nv d"
  have pv: "prompts_versions ?d = prompts_versions d @ [nv]" by (simp add: insert_version_def)
  have "current_version ?d org pid \<noteq> None"
    using nv by (auto simp: current_version_None pv)
  then obtain w where w: "current_version ?d org pid = Some w" by auto
  have lt: "\<And>x. x \<in> set (prompts_versions d) \<Longrightarrow> v_organization x = org \<Longrightarrow> v_prompt_v2 x = pid
              \<Longrightarrow> v_major_version x < v_major_version nv"
  proof -
    fix x assume x: "x \<in> set (prompts_versions d)" "v_organization x = org" "v_prompt_v2 x = pid"
    then have "current_version d org pid \<noteq> None" unfolding current_version_None by blast
    with ev have "ev \<noteq> None" by simp
    then obtain v where v: "ev = Some v" by auto
    with ev current_version_Some [of d org pid v] x have "v_major_version x \<le> v_major_version v" by auto
    with nv v show "v_major_version x < v_major_version nv" by simp
  qed
  from current_version_Some [OF w] have win: "w \<in> set (prompts_versions d) \<or> w = nv"
    and worg: "v_organization w = org" "v_prompt_v2 w = pid"
    and wmax: "v_major_version nv \<le> v_major_version w"
    using nv by (auto simp: pv)
  from win show ?thesis
  proof
    assume "w \<in> set (prompts_versions d)"
    from lt [OF this worg] wmax show ?thesis by simp
  next
    assume "w = nv" with w show ?thesis by simp
  qed
qed

lemma ensure_prompt_select:
  assumes "ensure_prompt E r t = Inr (p, t')"
  shows "select_prompt (db t') (orgId r) (promptId r) = [p] \<and>
         set (prompt_v2 (db t)) \<subseteq> set (prompt_v2 (db t'))"
  using assms
  by (auto simp: ensure_prompt_def issue_Inr oneOrNone_None oneOrNone_Some on_db_def Let_def
        select_prompt_def insert_prompt_def
      split: sum.splits option.splits)

lemma processPrompt_prompt_v2:
  assumes "processPrompt E r t = Inr (res, t')" and "truthy (heliconeTemplate r)"
  shows "select_prompt (db t') (orgId r) (promptId r) = [prompt_row_for E r (db t)] \<and>
         set (prompt_v2 (db t)) \<subseteq> set (prompt_v2 (db t'))"
proof -
  from processPrompt_Inr [OF assms] obtain t1 t2 t3 where
    a: "ensure_prompt E r t = Inr (prompt_row_for E r (db t), t1)" and
    b: "latest_version E r (prompt_row_for E r (db t)) t1 =
             Inr (current_version (db t) (orgId r) (p_id (prompt_row_for E r (db t))), t2)" and
    c: "resolve_version E r (the (heliconeTemplate r)) (prompt_row_for E r (db t))
               (current_version (db t) (orgId r) (p_id (prompt_row_for E r (db t)))) t2 =
             Inr (resolved_version_id E r (db t), t3)" and
    d: "record_inputs E r (the (heliconeTemplate r)) (resolved_version_id E r (db t)) t3 = Inr t'"
    by blast
  from latest_version_Inr [OF b] have "prompt_v2 (db t2) = prompt_v2 (db t1)" by auto
  moreover from resolve_version_Inr [OF c] have "prompt_v2 (db t3) = prompt_v2 (db t2)"
    by (auto simp: insert_version_def split: if_splits)
  moreover from record_inputs_Inr [OF d] have "prompt_v2 (db t') = prompt_v2 (db t3)"
    by (auto simp: insert_input_record_def insert_input_keys_def split: if_splits)
  ultimately have "prompt_v2 (db t') = prompt_v2 (db t1)" by simp
  with ensure_prompt_select [OF a] show ?thesis by (simp add: select_prompt_def)
qed

lemma processPrompt_prompt_row_for:
  assumes "processPrompt E r t = Inr (res, t')" and "truthy (heliconeTemplate r)"
  shows "prompt_row_for E r (db t') = prompt_row_for E r (db t)"
  using processPrompt_prompt_v2 [OF assms] by (simp add: prompt_row_for_def)

lemma update_necessary_iff:
  "update_necessary E r tmpl ev \<longleftrightarrow>
     (ev = None \<or> (\<exists>v. ev = Some v \<and> v_created_at v \<le> createdAt r
                        \<and> \<not> deepCompare E (v_helicone_template v) tmpl))"
  by (cases ev) (simp_all add: update_necessary_def)

text \<open>
  Claim C1. When the resolver has processed a record with a non-empty template, the
  versions table has changed if and only if the record's prompt had no version, or its
  latest version was created no later than the record and \<open>deepCompare\<close> finds its
  template different from the record's. When it has changed, exactly one version was
  appended, with the major version of the latest version plus one (0 when there was
  none), minor version 0 and the record's template, model and time, and it is now the
  latest version of the prompt. When \<open>deepCompare\<close> finds the latest version's template
  equal to the record's, no version is added and the latest version is as before.
\<close>

theorem processPrompt_version_creation:
  assumes "truthy (heliconeTemplate r)" and "processPrompt E r t = Inr (res, t')"
  shows "((prompts_versions (db t') \<noteq> prompts_versions (db t)) \<longleftrightarrow>
            (latest_for E r (db t) = None \<or>
             (\<exists>v. latest_for E r (db t) = Some v \<and> v_created_at v \<le> createdAt r \<and>
                  \<not> deepCompare E (v_helicone_template v) (the (heliconeTemplate r))))) \<and>
         (prompts_versions (db t') \<noteq> prompts_versions (db t) \<longrightarrow>
            (\<exists>nv. prompts_versions (db t') = prompts_versions (db t) @ [nv] \<and>
                  v_major_version nv =
                    (case latest_for E r (db t) of None \<Rightarrow> 0 | Some v \<Rightarrow> v_major_version v + 1) \<and>
                  v_minor_version nv = 0 \<and>
                  v_helicone_template nv = the (heliconeTemplate r) \<and>
                  v_model nv = model r \<and>
                  v_created_at nv = createdAt r \<and>
                  v_organization nv = orgId r \<and>
                  v_prompt_v2 nv = p_id (prompt_row_for E r (db t)) \<and>
                  latest_for E r (db t') = Some nv)) \<and>
         (\<forall>v. latest_for E r (db t) = Some v \<and>
              deepCompare E (v_helicone_template v) (the (heliconeTemplate r)) \<longrightarrow>
              prompts_versions (db t') = prompts_versions (db t) \<and>
              latest_for E r (db t') = Some v)"
proof -
  let ?p = "prompt_row_for E r (db t)"
  let ?ev = "latest_for E r (db t)"
  let ?tmpl = "the (heliconeTemplate r)"
  let ?nv = "new_version E r ?tmpl ?p ?ev (db t)"
  note pv = processPrompt_versions [OF assms(2,1), folded latest_for_def]
  note pr = processPrompt_prompt_row_for [OF assms(2,1)]
  have lf': "latest_for E r (db t') = current_version (db t') (orgId r) (p_id ?p)"
    by (simp add: latest_for_def pr)
  have iff: "(prompts_versions (db t') \<noteq> prompts_versions (db t)) \<longleftrightarrow> update_necessary E r ?tmpl ?ev"
    by (simp add: pv)
  have same: "\<not> update_necessary E r ?tmpl ?ev \<Longrightarrow>
                prompts_versions (db t') = prompts_versions (db t) \<and> latest_for E r (db t') = ?ev"
  proof -
    assume "\<not> update_necessary E r ?tmpl ?ev"
    then have e: "prompts_versions (db t') = prompts_versions (db t)" by (simp add: pv)
    have "latest_for E r (db t') = ?ev"
      by (simp only: lf' current_version_cong [OF e] latest_for_def [of E r "db t"])
    with e show ?thesis by simp
  qed
  have minted: "update_necessary E r ?tmpl ?ev \<Longrightarrow>
                 prompts_versions (db t') = prompts_versions (db t) @ [?nv] \<and>
                 latest_for E r (db t') = Some ?nv"
  proof -
    assume "update_necessary E r ?tmpl ?ev"
    then have e: "prompts_versions (db t') = prompts_versions (db t) @ [?nv]" by (simp add: pv)
    then have e': "prompts_versions (db t') = prompts_versions (insert_version ?nv (db t))"
      by (simp add: insert_version_def)
    have "current_version (insert_version ?nv (db t)) (orgId r) (p_id ?p) = Some ?nv"
      by (rule current_version_minted [where ev = ?ev])
         (simp_all add: latest_for_def new_version_def)
    with e show ?thesis by (simp add: lf' current_version_cong [OF e'])
  qed
  have c1: "(prompts_versions (db t') \<noteq> prompts_versions (db t)) \<longleftrightarrow>
            (?ev = None \<or> (\<exists>v. ?ev = Some v \<and> v_created_at v \<le> createdAt r \<and>
                  \<not> deepCompare E (v_helicone_template v) ?tmpl))"
    using iff by (simp only: update_necessary_iff)
  have c2: "prompts_versions (db t') \<noteq> prompts_versions (db t) \<longrightarrow>
            (\<exists>nv. prompts_versions (db t') = prompts_versions (db t) @ [nv] \<and>
                  v_major_version nv =
                    (case ?ev of None \<Rightarrow> 0 | Some v \<Rightarrow> v_major_version v + 1) \<and>
                  v_minor_version nv = 0 \<and>
                  v_helicone_template nv = ?tmpl \<and>
                  v_model nv = model r \<and>
                  v_created_at nv = createdAt r \<and>
                  v_organization nv = orgId r \<and>
                  v_prompt_v2 nv = p_id ?p \<and>
                  latest_for E r (db t') = Some nv)"
  proof
    assume "prompts_versions (db t') \<noteq> prompts_versions (db t)"
    with iff have "update_necessary E r ?tmpl ?ev" by simp
    from minted [OF this] show "\<exists>nv. prompts_versions (db t') = prompts_versions (db t) @ [nv] \<and>
                  v_major_version nv =
                    (case ?ev of None \<Rightarrow> 0 | Some v \<Rightarrow> v_major_version v + 1) \<and>
                  v_minor_version nv = 0 \<and>
                  v_helicone_template nv = ?tmpl \<and>
                  v_model nv = model r \<and>
                  v_created_at nv = createdAt r \<and>
                  v_organization nv = orgId r \<and>
                  v_prompt_v2 nv = p_id ?p \<and>
                  latest_for E r (db t') = Some nv"
      by (intro exI [of _ ?nv]) (simp add: new_version_def split: option.splits)
  qed
  have c3: "\<forall>v. ?ev = Some v \<and> deepCompare E (v_helicone_template v) ?tmpl \<longrightarrow>
              prompts_versions (db t') = prompts_versions (db t) \<and>
              latest_for E r (db t') = Some v"
  proof (intro allI impI)
    fix v assume v: "?ev = Some v \<and> deepCompare E (v_helicone_template v) ?tmpl"
    then have "\<not> update_necessary E r ?tmpl ?ev" by (simp add: update_necessary_def)
    from same [OF this] v show "prompts_versions (db t') = prompts_versions (db t) \<and>
              latest_for E r (db t') = Some v" by simp
  qed
  from c1 c2 c3 show ?thesis by blast
qed

theorem processPrompt_version_creation_witness:
  "truthy (heliconeTemplate record_a) \<and>
   processPrompt demo_env record_a (begun empty_database)
     = Inr (ok ''Prompt processed successfully'', after_a) \<and>
   latest_for demo_env record_a (db (begun empty_database)) = None \<and>
   (\<exists>nv. prompts_versions (db after_a) = [nv] \<and> v_major_version nv = 0 \<and>
         v_minor_version nv = 0 \<and> v_helicone_template nv = template_a \<and>
         latest_for demo_env record_a (db after_a) = Some nv) \<and>
   truthy (heliconeTemplate record_d) \<and> createdAt record_a < createdAt record_d \<and>
   processPrompt demo_env record_d after_a
     = Inr (ok ''Prompt processed successfully'', after_a_d) \<and>
   prompts_versions (db after_a_d) = prompts_versions (db after_a)"
proof -
  have tr: "truthy (heliconeTemplate record_a)" by (simp add: demo_defs)
  have run: "processPrompt demo_env record_a (begun empty_database)
               = Inr (ok ''Prompt processed successfully'', after_a)"
    by (simp add: after_a_def resolver_defs writer_defs demo_defs)
  have none: "latest_for demo_env record_a (db (begun empty_database)) = None"
    by (simp add: latest_for_def current_version_def prompt_row_for_def resolver_defs
        writer_defs demo_defs)
  have e: "prompts_versions (db (begun empty_database)) = []"
    by (simp add: writer_defs demo_defs)
  have t: "the (heliconeTemplate record_a) = template_a" by (simp add: demo_defs)
  from processPrompt_version_creation [OF tr run]
  have minted: "\<exists>nv. prompts_versions (db after_a) = [nv] \<and> v_major_version nv = 0 \<and>
         v_minor_version nv = 0 \<and> v_helicone_template nv = template_a \<and>
         latest_for demo_env record_a (db after_a) = Some nv"
    unfolding none e t by auto
  have tr': "truthy (heliconeTemplate record_d)" and later: "createdAt record_a < createdAt record_d"
    by (simp_all add: demo_defs)
  have run': "processPrompt demo_env record_d after_a
               = Inr (ok ''Prompt processed successfully'', after_a_d)"
    by (simp add: after_a_d_def after_a_def resolver_defs writer_defs demo_defs)
  have same: "\<exists>v. latest_for demo_env record_d (db after_a) = Some v \<and>
                  deepCompare demo_env (v_helicone_template v) (the (heliconeTemplate record_d))"
    by (simp add: after_a_def latest_for_def current_version_def prompt_row_for_def
        resolver_defs writer_defs demo_defs)
  from processPrompt_version_creation [OF tr' run'] same
  have kept: "prompts_versions (db after_a_d) = prompts_versions (db after_a)" by blast
  from tr run none minted tr' later run' kept show ?thesis by blast
qed

text \<open>
  Claim C2. When the record is strictly older than the latest version of its prompt, the
  resolver adds no version, whatever the templates: the version id it resolves to is the
  latest version's, and that is the id the appended input record carries.
\<close>

theorem processPrompt_out_of_order:
  assumes "truthy (heliconeTemplate r)" and "processPrompt E r t = Inr (res, t')"
    and "latest_for E r (db t) = Some v" and "createdAt r < v_created_at v"
  shows "prompts_versions (db t') = prompts_versions (db t) \<and>
         resolved_version_id E r (db t) = v_id v \<and>
         (v_id v \<noteq> [] \<longrightarrow>
            prompt_input_record (db t') = prompt_input_record (db t) @
              [\<lparr>r_inputs = the (template_inputs (the (heliconeTemplate r))),
                r_source_request = requestId r,
                r_prompt_version = v_id v,
                r_created_at = createdAt r\<rparr>])"
proof -
  from assms(3,4) have n: "\<not> update_necessary E r (the (heliconeTemplate r))
      (current_version (db t) (orgId r) (p_id (prompt_row_for E r (db t))))"
    by (simp add: update_necessary_def latest_for_def Date_less_not_le)
  with assms(3) have vid: "resolved_version_id E r (db t) = v_id v"
    by (simp add: resolved_version_id_def Let_def latest_for_def)
  from n processPrompt_versions [OF assms(2,1)]
  have "prompts_versions (db t') = prompts_versions (db t)" by simp
  with vid processPrompt_input_record [OF assms(2,1)] show ?thesis by simp
qed

theorem processPrompt_out_of_order_witness:
  "truthy (heliconeTemplate record_a) \<and>
   processPrompt demo_env record_a after_b
     = Inr (ok ''Prompt processed successfully'', after_b_a) \<and>
   latest_for demo_env record_a (db after_b) = Some version_b \<and>
   createdAt record_a < v_created_at version_b \<and>
   v_helicone_template version_b \<noteq> the (heliconeTemplate record_a) \<and>
   prompts_versions (db after_b_a) = prompts_versions (db after_b) \<and>
   prompt_input_record (db after_b_a) = prompt_input_record (db after_b) @
     [\<lparr>r_inputs = JObj [(''name'', JStr ''Ada'')], r_source_request = ''req-a'',
       r_prompt_version = ''v'', r_created_at = Time 100\<rparr>]"
proof -
  have tr: "truthy (heliconeTemplate record_a)" by (simp add: demo_defs)
  have run: "processPrompt demo_env record_a after_b
               = Inr (ok ''Prompt processed successfully'', after_b_a)"
    by (simp add: after_b_a_def after_b_def resolver_defs writer_defs demo_defs)
  have lv: "latest_for demo_env record_a (db after_b) = Some version_b"
    by (simp add: after_b_def latest_for_def current_version_def prompt_row_for_def
        resolver_defs writer_defs demo_defs)
  have older: "createdAt record_a < v_created_at version_b" by (simp add: demo_defs)
  have differs: "v_helicone_template version_b \<noteq> the (heliconeTemplate record_a)"
    by (simp add: demo_defs)
  have v: "v_id version_b = ''v''" "requestId record_a = ''req-a''" "createdAt record_a = Time 100"
    "the (template_inputs (the (heliconeTemplate record_a))) = JObj [(''name'', JStr ''Ada'')]"
    by (simp_all add: demo_defs)
  from processPrompt_out_of_order [OF tr run lv older]
  have "prompts_versions (db after_b_a) = prompts_versions (db after_b) \<and>
        prompt_input_record (db after_b_a) = prompt_input_record (db after_b) @
          [\<lparr>r_inputs = JObj [(''name'', JStr ''Ada'')], r_source_request = ''req-a'',
            r_prompt_version = ''v'', r_created_at = Time 100\<rparr>]"
    unfolding v by simp
  with tr run lv older differs show ?thesis by blast
qed


lemma resolved_version_id_nonempty:
  assumes "ids_nonempty E" and "version_ids_nonempty d"
  shows "resolved_version_id E r d \<noteq> []"
proof (cases "update_necessary E r (the (heliconeTemplate r))
               (current_version d (orgId r) (p_id (prompt_row_for E r d)))")
  case True
  with assms(1) show ?thesis
    by (simp add: resolved_version_id_def Let_def new_version_def ids_nonempty_def)
next
  case False
  then obtain v where v: "current_version d (orgId r) (p_id (prompt_row_for E r d)) = Some v"
    by (cases "current_version d (orgId r) (p_id (prompt_row_for E r d))")
       (simp_all add: update_necessary_def)
  from current_version_Some [OF v] assms(2) have "v_id v \<noteq> []"
    by (simp add: version_ids_nonempty_def)
  with False v show ?thesis by (simp add: resolved_version_id_def Let_def)
qed

lemma processPrompt_version_ids_nonempty:
  assumes "processPrompt E r t = Inr (res, t')" and "ids_nonempty E"
    and "version_ids_nonempty (db t)"
  shows "version_ids_nonempty (db t')"
proof (cases "truthy (heliconeTemplate r)")
  case True
  from processPrompt_versions [OF assms(1) True] assms(2,3) show ?thesis
    by (auto simp: version_ids_nonempty_def new_version_def ids_nonempty_def split: if_splits)
next
  case False
  with assms show ?thesis by (simp add: processPrompt_def)
qed

lemma advisory_xact_lock_Inr:
  "advisory_xact_lock E k t = Inr t' \<longleftrightarrow>
     \<not> rejects E (issued t) (AdvisoryXactLock k) \<and>
     t' = \<lparr>db = db t, locks = locks t @ [k], issued = issued t @ [AdvisoryXactLock k]\<rparr>"
  by (auto simp: advisory_xact_lock_def issue_def)

lemma processPrompts_Cons:
  "processPrompts E (r # rs) t = Inr t' \<longleftrightarrow>
     (\<exists>t1 res t2. advisory_xact_lock E (promptId r) t = Inr t1 \<and>
                  processPrompt E r t1 = Inr (res, t2) \<and> processPrompts E rs t2 = Inr t')"
  by (auto split: sum.splits)

lemma processPrompt_trace:
  assumes "processPrompt E r t = Inr (res, t')"
  shows "locks t' = locks t \<and>
         (\<exists>ss. issued t' = issued t @ ss \<and> (\<forall>s\<in>set ss. \<not> is_bulk s))"
proof (cases "truthy (heliconeTemplate r)")
  case False
  with assms show ?thesis by (simp add: processPrompt_def)
next
  case True
  from processPrompt_Inr [OF assms True] obtain t1 t2 t3 where
    a: "ensure_prompt E r t = Inr (prompt_row_for E r (db t), t1)" and
    b: "latest_version E r (prompt_row_for E r (db t)) t1 =
             Inr (current_version (db t) (orgId r) (p_id (prompt_row_for E r (db t))), t2)" and
    c: "resolve_version E r (the (heliconeTemplate r)) (prompt_row_for E r (db t))
               (current_version (db t) (orgId r) (p_id (prompt_row_for E r (db t)))) t2 =
             Inr (resolved_version_id E r (db t), t3)" and
    d: "record_inputs E r (the (heliconeTemplate r)) (resolved_version_id E r (db t)) t3 = Inr t'"
    by blast
  from ensure_prompt_Inr [OF a] obtain s1 where
    l1: "locks t1 = locks t" and
    i1: "issued t1 = issued t @ SelectPrompt (orgId r) (promptId r) # s1" and
    k1: "\<forall>s\<in>set s1. \<exists>a b c. s = InsertPrompt a b c" by blast
  from latest_version_Inr [OF b] have
    l2: "locks t2 = locks t1" and
    i2: "issued t2 = issued t1 @ [SelectLatestVersion (orgId r) (p_id (prompt_row_for E r (db t)))]"
    by simp_all
  from resolve_version_Inr [OF c] obtain s3 where
    l3: "locks t3 = locks t2" and
    i3: "issued t3 = issued t2 @ s3" and
    k3: "\<forall>s\<in>set s3. \<exists>a b c d e f. s = InsertVersion a b c d e f"
    by (cases "update_necessary E r (the (heliconeTemplate r))
               (current_version (db t) (orgId r) (p_id (prompt_row_for E r (db t))))") auto
  from record_inputs_Inr [OF d] obtain s4 where
    l4: "locks t' = locks t3" and
    i4: "issued t' = issued t3 @ s4" and
    k4: "\<forall>s\<in>set s4. (\<exists>a b c. s = InsertInputKeys a b c) \<or> (\<exists>a b c d. s = InsertInputRecord a b c d)"
    by (cases "resolved_version_id E r (db t) = []") auto
  let ?ss = "SelectPrompt (orgId r) (promptId r) # s1 @
             [SelectLatestVersion (orgId r) (p_id (prompt_row_for E r (db t)))] @ s3 @ s4"
  have b1: "\<forall>s\<in>set s1. \<not> is_bulk s" using k1 by auto
  have b3: "\<forall>s\<in>set s3. \<not> is_bulk s" using k3 by auto
  have b4: "\<forall>s\<in>set s4. \<not> is_bulk s" using k4 by auto
  have "issued t' = issued t @ ?ss" by (simp add: i1 i2 i3 i4)
  moreover have "\<forall>s\<in>set ?ss. \<not> is_bulk s" using b1 b3 b4 by auto
  ultimately show ?thesis using True l1 l2 l3 l4 by (intro conjI exI [of _ ?ss]) simp_all
qed

lemma processPrompts_trace:
  "processPrompts E rs t = Inr t' \<Longrightarrow>
     locks t' = locks t @ map promptId rs \<and>
     (\<exists>ss. issued t' = issued t @ ss \<and> (\<forall>s\<in>set ss. \<not> is_bulk s))"
proof (induction rs arbitrary: t)
  case Nil
  then show ?case by simp
next
  case (Cons r rs)
  from Cons.prems obtain t1 res t2 where
    l: "advisory_xact_lock E (promptId r) t = Inr t1" and
    p: "processPrompt E r t1 = Inr (res, t2)" and
    q: "processPrompts E rs t2 = Inr t'"
    unfolding processPrompts_Cons by blast
  from l have t1: "locks t1 = locks t @ [promptId r]"
    "issued t1 = issued t @ [AdvisoryXactLock (promptId r)]"
    by (simp_all add: advisory_xact_lock_Inr)
  from processPrompt_trace [OF p] obtain s2 where
    l2: "locks t2 = locks t1" and i2: "issued t2 = issued t1 @ s2" and
    b2: "\<forall>s\<in>set s2. \<not> is_bulk s" by blast
  from Cons.IH [OF q] obtain s3 where
    l3: "locks t' = locks t2 @ map promptId rs" and i3: "issued t' = issued t2 @ s3" and
    b3: "\<forall>s\<in>set s3. \<not> is_bulk s" by blast
  let ?ss = "AdvisoryXactLock (promptId r) # s2 @ s3"
  have "issued t' = issued t @ ?ss" by (simp add: t1 i2 i3)
  moreover have "\<forall>s\<in>set ?ss. \<not> is_bulk s" using b2 b3 by auto
  moreover have "locks t' = locks t @ map promptId (r # rs)" by (simp add: l3 l2 t1)
  ultimately show ?case by blast
qed

lemma processPrompt_bulk_tables:
  assumes "processPrompt E r t = Inr (res, t')"
  shows "request_tbl (db t') = request_tbl (db t) \<and> response_tbl (db t') = response_tbl (db t) \<and>
         properties_tbl (db t') = properties_tbl (db t)"
proof (cases "truthy (heliconeTemplate r)")
  case False
  with assms show ?thesis by (simp add: processPrompt_def)
next
  case True
  from processPrompt_Inr [OF assms True] obtain t1 t2 t3 where
    a: "ensure_prompt E r t = Inr (prompt_row_for E r (db t), t1)" and
    b: "latest_version E r (prompt_row_for E r (db t)) t1 =
             Inr (current_version (db t) (orgId r) (p_id (prompt_row_for E r (db t))), t2)" and
    c: "resolve_version E r (the (heliconeTemplate r)) (prompt_row_for E r (db t))
               (current_version (db t) (orgId r) (p_id (prompt_row_for E r (db t)))) t2 =
             Inr (resolved_version_id E r (db t), t3)" and
    d: "record_inputs E r (the (heliconeTemplate r)) (resolved_version_id E r (db t)) t3 = Inr t'"
    by blast
  from ensure_prompt_Inr [OF a] have
    "request_tbl (db t1) = request_tbl (db t) \<and> response_tbl (db t1) = response_tbl (db t) \<and>
     properties_tbl (db t1) = properties_tbl (db t)"
    by (auto simp: insert_prompt_def)
  moreover from latest_version_Inr [OF b] have "db t2 = db t1" by simp
  moreover from resolve_version_Inr [OF c] have
    "request_tbl (db t3) = request_tbl (db t2) \<and> response_tbl (db t3) = response_tbl (db t2) \<and>
     properties_tbl (db t3) = properties_tbl (db t2)"
    by (auto simp: insert_version_def split: if_splits)
  moreover from record_inputs_Inr [OF d] have
    "request_tbl (db t') = request_tbl (db t3) \<and> response_tbl (db t') = response_tbl (db t3) \<and>
     properties_tbl (db t') = properties_tbl (db t3)"
    by (auto simp: insert_input_record_def insert_input_keys_def split: if_splits)
  ultimately show ?thesis by simp
qed

lemma processPrompts_bulk_tables:
  "processPrompts E rs t = Inr t' \<Longrightarrow>
     request_tbl (db t') = request_tbl (db t) \<and> response_tbl (db t') = response_tbl (db t) \<and>
     properties_tbl (db t') = properties_tbl (db t)"
proof (induction rs arbitrary: t)
  case Nil
  then show ?case by simp
next
  case (Cons r rs)
  from Cons.prems obtain t1 res t2 where
    l: "advisory_xact_lock E (promptId r) t = Inr t1" and
    p: "processPrompt E r t1 = Inr (res, t2)" and
    q: "processPrompts E rs t2 = Inr t'"
    unfolding processPrompts_Cons by blast
  from l have "db t1 = db t" by (simp add: advisory_xact_lock_Inr)
  with processPrompt_bulk_tables [OF p] Cons.IH [OF q] show ?case by simp
qed

lemma bulk_upsert_Inr:
  "bulk_upsert E mk cols input get put t = Inr t' \<longleftrightarrow>
     (if input_rows input = [] then t' = t
      else \<not> rejects E (issued t) (mk (input_rows input)) \<and>
           (\<exists>tbl. upsert_rows cols (input_rows input) (get (db t)) = Inr tbl \<and>
                  t' = \<lparr>db = put tbl (db t), locks = locks t,
                        issued = issued t @ [mk (input_rows input)]\<rparr>))"
  by (cases input)
     (auto simp: bulk_upsert_def input_rows_def issue_def on_db_def split: sum.splits)

lemma tx_body_Inr:
  "tx_body E payload t = Inr t' \<longleftrightarrow>
     (\<exists>t1 t2 t3.
        bulk_upsert E UpsertRequest requestColumns (requests payload) request_tbl put_request t
          = Inr t1 \<and>
        bulk_upsert E UpsertResponse responseColumns (responses payload) response_tbl put_response t1
          = Inr t2 \<and>
        bulk_upsert E UpsertProperties propertiesColumns (properties payload) properties_tbl
            put_properties t2 = Inr t3 \<and>
        processPrompts E (sorted_prompts payload) t3 = Inr t')"
  by (auto simp: tx_body_def split: sum.splits)

lemma row_id_updated_row: "row_id (updated_row cols x old) = row_id old"
  by (simp add: row_id_def updated_row_def assignColumns_def)

lemma row_id_inserted_row: "''id'' \<in> set cols \<Longrightarrow> row_id (inserted_row cols x) = row_id x"
  by (simp add: row_id_def inserted_row_def)

lemma map_row_id_update:
  "map row_id (map (\<lambda>old. if row_id old = i then updated_row cols x old else old) tbl)
     = map row_id tbl"
  by (induction tbl) (simp_all add: row_id_updated_row)

lemma upsert_row_ids:
  "''id'' \<in> set cols \<Longrightarrow>
   map row_id (upsert_row cols x tbl) =
     (if row_id x \<in> row_id ` set tbl then map row_id tbl else map row_id tbl @ [row_id x])"
  by (auto simp: upsert_row_def row_id_updated_row row_id_inserted_row)

lemma upsert_row_distinct:
  "''id'' \<in> set cols \<Longrightarrow> distinct (map row_id tbl) \<Longrightarrow>
   distinct (map row_id (upsert_row cols x tbl))"
  by (simp add: upsert_row_ids)

lemma filter_update_other:
  "i \<noteq> j \<Longrightarrow>
   filter (\<lambda>y. row_id y = i) (map (\<lambda>old. if row_id old = j then updated_row cols x old else old) tbl)
     = filter (\<lambda>y. row_id y = i) tbl"
  by (induction tbl) (auto simp: row_id_updated_row)

lemma filter_update_same:
  "filter (\<lambda>y. row_id y = j) (map (\<lambda>old. if row_id old = j then updated_row cols x old else old) tbl)
     = map (updated_row cols x) (filter (\<lambda>y. row_id y = j) tbl)"
  by (induction tbl) (auto simp: row_id_updated_row)

lemma upsert_row_filter_other:
  "''id'' \<in> set cols \<Longrightarrow> i \<noteq> row_id x \<Longrightarrow>
   filter (\<lambda>y. row_id y = i) (upsert_row cols x tbl) = filter (\<lambda>y. row_id y = i) tbl"
  by (simp add: upsert_row_def filter_update_other row_id_inserted_row)

lemma filter_key_none:
  "k \<notin> g ` set xs \<Longrightarrow> filter (\<lambda>y. g y = k) xs = []"
  by (auto simp: filter_empty_conv)

lemma filter_key_distinct:
  "distinct (map g xs) \<Longrightarrow> a \<in> set xs \<Longrightarrow> filter (\<lambda>y. g y = g a) xs = [a]"
proof (induction xs)
  case Nil
  then show ?case by simp
next
  case (Cons b xs)
  show ?case
  proof (cases "a = b")
    case True
    with Cons.prems have "g b \<notin> g ` set xs" by simp
    then have "filter (\<lambda>y. g y = g b) xs = []" by (rule filter_key_none)
    with True show ?thesis by simp
  next
    case False
    with Cons.prems have a: "a \<in> set xs" and "g b \<notin> g ` set xs" by auto
    then have "g b \<noteq> g a" by blast
    with Cons.IH a Cons.prems show ?thesis by simp
  qed
qed

lemma upsert_row_filter_same:
  assumes "''id'' \<in> set cols" and "distinct (map row_id tbl)"
  shows "filter (\<lambda>y. row_id y = row_id x) (upsert_row cols x tbl) = [stored_row cols x tbl]"
proof (cases "row_id x \<in> row_id ` set tbl")
  case True
  then obtain old where old: "old \<in> set tbl" "row_id old = row_id x" by auto
  from filter_key_distinct [OF assms(2) old(1)] old(2)
  have f: "filter (\<lambda>y. row_id y = row_id x) tbl = [old]" by simp
  with True show ?thesis
    by (simp add: upsert_row_def filter_update_same stored_row_def)
next
  case False
  then have "filter (\<lambda>y. row_id y = row_id x) tbl = []" by (rule filter_key_none)
  with False assms(1) show ?thesis
    by (simp add: upsert_row_def stored_row_def row_id_inserted_row)
qed

lemma fold_upsert_distinct:
  "''id'' \<in> set cols \<Longrightarrow> distinct (map row_id tbl) \<Longrightarrow>
   distinct (map row_id (fold (upsert_row cols) xs tbl))"
  by (induction xs arbitrary: tbl) (simp_all add: upsert_row_distinct)

lemma fold_upsert_filter_other:
  "''id'' \<in> set cols \<Longrightarrow> i \<notin> row_id ` set xs \<Longrightarrow>
   filter (\<lambda>y. row_id y = i) (fold (upsert_row cols) xs tbl) = filter (\<lambda>y. row_id y = i) tbl"
  by (induction xs arbitrary: tbl) (simp_all add: upsert_row_filter_other)

lemma fold_upsert_filter_same:
  "''id'' \<in> set cols \<Longrightarrow> distinct (map row_id xs) \<Longrightarrow> distinct (map row_id tbl) \<Longrightarrow>
   x \<in> set xs \<Longrightarrow>
   filter (\<lambda>y. row_id y = row_id x) (fold (upsert_row cols) xs tbl) = [stored_row cols x tbl]"
proof (induction xs arbitrary: tbl)
  case Nil
  then show ?case by simp
next
  case (Cons a xs)
  show ?case
  proof (cases "x = a")
    case True
    with Cons.prems(2) have "row_id a \<notin> row_id ` set xs" by simp
    from fold_upsert_filter_other [OF Cons.prems(1) this]
    have "filter (\<lambda>y. row_id y = row_id a) (fold (upsert_row cols) xs (upsert_row cols a tbl))
            = filter (\<lambda>y. row_id y = row_id a) (upsert_row cols a tbl)" .
    with True upsert_row_filter_same [OF Cons.prems(1,3), of a] show ?thesis by simp
  next
    case False
    with Cons.prems have x: "x \<in> set xs" and d: "distinct (map row_id xs)"
      and na: "row_id a \<notin> row_id ` set xs" by auto
    have "row_id x \<in> row_id ` set xs" using x by (rule imageI)
    with na have ne: "row_id x \<noteq> row_id a" by metis
    have d': "distinct (map row_id (upsert_row cols a tbl))"
      by (rule upsert_row_distinct [OF Cons.prems(1,3)])
    from Cons.IH [OF Cons.prems(1) d d' x]
    have "filter (\<lambda>y. row_id y = row_id x) (fold (upsert_row cols) (a # xs) tbl)
            = [stored_row cols x (upsert_row cols a tbl)]" by simp
    moreover have "stored_row cols x (upsert_row cols a tbl) = stored_row cols x tbl"
      by (simp add: stored_row_def upsert_row_filter_other [OF Cons.prems(1) ne])
    ultimately show ?thesis by simp
  qed
qed

lemma stored_row_columns:
  "c \<in> set cols \<Longrightarrow> c \<noteq> ''id'' \<Longrightarrow> stored_row cols x tbl c = x c"
  by (simp add: stored_row_def inserted_row_def updated_row_def assignColumns_def
      split: list.splits)

lemma stored_row_kept:
  assumes "distinct (map row_id tbl)" and "old \<in> set tbl" and "row_id old = row_id x"
  shows "stored_row cols x tbl ''id'' = old ''id'' \<and>
         (\<forall>c. c \<notin> set cols \<longrightarrow> stored_row cols x tbl c = old c)"
proof -
  from filter_key_distinct [OF assms(1,2)] assms(3)
  have "filter (\<lambda>y. row_id y = row_id x) tbl = [old]" by simp
  then show ?thesis
    by (simp add: stored_row_def updated_row_def assignColumns_def)
qed

lemma upserted_Nil: "distinct (map row_id tbl) \<Longrightarrow> upserted cols [] tbl tbl"
  by (simp add: upserted_def)

lemma upsert_rows_upserted:
  assumes "''id'' \<in> set cols" and "distinct (map row_id tbl)"
    and "upsert_rows cols xs tbl = Inr tbl'"
  shows "upserted cols xs tbl tbl'"
proof -
  from assms(3) have dx: "distinct (map row_id xs)"
    and tbl': "tbl' = fold (upsert_row cols) xs tbl"
    by (auto simp: upsert_rows_def split: if_splits)
  have a: "distinct (map row_id tbl')"
    unfolding tbl' by (rule fold_upsert_distinct [OF assms(1,2)])
  have b: "\<forall>x\<in>set xs. \<exists>y. filter (\<lambda>y. row_id y = row_id x) tbl' = [y] \<and>
           (\<forall>c\<in>set cols. c \<noteq> ''id'' \<longrightarrow> y c = x c) \<and>
           (\<forall>old\<in>set tbl. row_id old = row_id x \<longrightarrow>
               y ''id'' = old ''id'' \<and> (\<forall>c. c \<notin> set cols \<longrightarrow> y c = old c))"
  proof
    fix x assume x: "x \<in> set xs"
    have "filter (\<lambda>y. row_id y = row_id x) tbl' = [stored_row cols x tbl]"
      unfolding tbl' by (rule fold_upsert_filter_same [OF assms(1) dx assms(2) x])
    moreover have "\<forall>c\<in>set cols. c \<noteq> ''id'' \<longrightarrow> stored_row cols x tbl c = x c"
      by (simp add: stored_row_columns)
    moreover have "\<forall>old\<in>set tbl. row_id old = row_id x \<longrightarrow>
               stored_row cols x tbl ''id'' = old ''id'' \<and>
               (\<forall>c. c \<notin> set cols \<longrightarrow> stored_row cols x tbl c = old c)"
      using stored_row_kept [OF assms(2)] by blast
    ultimately show "\<exists>y. filter (\<lambda>y. row_id y = row_id x) tbl' = [y] \<and>
           (\<forall>c\<in>set cols. c \<noteq> ''id'' \<longrightarrow> y c = x c) \<and>
           (\<forall>old\<in>set tbl. row_id old = row_id x \<longrightarrow>
               y ''id'' = old ''id'' \<and> (\<forall>c. c \<notin> set cols \<longrightarrow> y c = old c))"
      by blast
  qed
  have c: "\<forall>i. i \<notin> row_id ` set xs \<longrightarrow>
           filter (\<lambda>y. row_id y = i) tbl' = filter (\<lambda>y. row_id y = i) tbl"
    unfolding tbl' using fold_upsert_filter_other [OF assms(1)] by blast
  have d: "xs = [] \<longrightarrow> tbl' = tbl" by (simp add: tbl')
  from a b c d show ?thesis unfolding upserted_def by blast
qed

lemma bulk_upsert_effect:
  assumes "bulk_upsert E mk cols input get put t = Inr t'"
  shows "locks t' = locks t \<and>
         issued t' = issued t @ (if input_rows input = [] then [] else [mk (input_rows input)]) \<and>
         (if input_rows input = [] then db t' = db t
          else (\<exists>tbl. upsert_rows cols (input_rows input) (get (db t)) = Inr tbl \<and>
                      db t' = put tbl (db t)))"
  using assms unfolding bulk_upsert_Inr by (auto split: if_splits)

lemma bulk_request:
  assumes "bulk_upsert E UpsertRequest requestColumns input request_tbl put_request t = Inr t'"
    and "distinct (map row_id (request_tbl (db t)))"
  shows "upserted requestColumns (input_rows input) (request_tbl (db t)) (request_tbl (db t'))"
proof (cases "input_rows input = []")
  case True
  with bulk_upsert_effect [OF assms(1)] assms(2) show ?thesis by (simp add: upserted_Nil)
next
  case False
  with bulk_upsert_effect [OF assms(1)] obtain tbl where
    u: "upsert_rows requestColumns (input_rows input) (request_tbl (db t)) = Inr tbl" and
    d: "db t' = put_request tbl (db t)" by auto
  have "''id'' \<in> set requestColumns" by (simp add: requestColumns_def)
  from upsert_rows_upserted [OF this assms(2) u] d show ?thesis by (simp add: put_request_def)
qed

lemma bulk_response:
  assumes "bulk_upsert E UpsertResponse responseColumns input response_tbl put_response t = Inr t'"
    and "distinct (map row_id (response_tbl (db t)))"
  shows "upserted responseColumns (input_rows input) (response_tbl (db t)) (response_tbl (db t'))"
proof (cases "input_rows input = []")
  case True
  with bulk_upsert_effect [OF assms(1)] assms(2) show ?thesis by (simp add: upserted_Nil)
next
  case False
  with bulk_upsert_effect [OF assms(1)] obtain tbl where
    u: "upsert_rows responseColumns (input_rows input) (response_tbl (db t)) = Inr tbl" and
    d: "db t' = put_response tbl (db t)" by auto
  have "''id'' \<in> set responseColumns" by (simp add: responseColumns_def)
  from upsert_rows_upserted [OF this assms(2) u] d show ?thesis by (simp add: put_response_def)
qed

lemma bulk_properties:
  assumes "bulk_upsert E UpsertProperties propertiesColumns input properties_tbl put_properties t
             = Inr t'"
    and "distinct (map row_id (properties_tbl (db t)))"
  shows "upserted propertiesColumns (input_rows input) (properties_tbl (db t))
           (properties_tbl (db t'))"
proof (cases "input_rows input = []")
  case True
  with bulk_upsert_effect [OF assms(1)] assms(2) show ?thesis by (simp add: upserted_Nil)
next
  case False
  with bulk_upsert_effect [OF assms(1)] obtain tbl where
    u: "upsert_rows propertiesColumns (input_rows input) (properties_tbl (db t)) = Inr tbl" and
    d: "db t' = put_properties tbl (db t)" by auto
  have "''id'' \<in> set propertiesColumns" by (simp add: propertiesColumns_def)
  from upsert_rows_upserted [OF this assms(2) u] d show ?thesis by (simp add: put_properties_def)
qed

text \<open>What the three bulk steps leave alone.\<close>

lemma bulk_request_frame:
  assumes "bulk_upsert E UpsertRequest requestColumns input request_tbl put_request t = Inr t'"
  shows "response_tbl (db t') = response_tbl (db t) \<and>
         properties_tbl (db t') = properties_tbl (db t) \<and>
         prompt_v2 (db t') = prompt_v2 (db t) \<and>
         prompts_versions (db t') = prompts_versions (db t) \<and>
         prompt_input_record (db t') = prompt_input_record (db t)"
  using bulk_upsert_effect [OF assms] by (auto simp: put_request_def split: if_splits)

lemma bulk_response_frame:
  assumes "bulk_upsert E UpsertResponse responseColumns input response_tbl put_response t = Inr t'"
  shows "request_tbl (db t') = request_tbl (db t) \<and>
         properties_tbl (db t') = properties_tbl (db t) \<and>
         prompt_v2 (db t') = prompt_v2 (db t) \<and>
         prompts_versions (db t') = prompts_versions (db t) \<and>
         prompt_input_record (db t') = prompt_input_record (db t)"
  using bulk_upsert_effect [OF assms] by (auto simp: put_response_def split: if_splits)

lemma bulk_properties_frame:
  assumes "bulk_upsert E UpsertProperties propertiesColumns input properties_tbl put_properties t
             = Inr t'"
  shows "request_tbl (db t') = request_tbl (db t) \<and>
         response_tbl (db t') = response_tbl (db t) \<and>
         prompt_v2 (db t') = prompt_v2 (db t) \<and>
         prompts_versions (db t') = prompts_versions (db t) \<and>
         prompt_input_record (db t') = prompt_input_record (db t)"
  using bulk_upsert_effect [OF assms] by (auto simp: put_properties_def split: if_splits)

lemma tx_body_phases:
  assumes "tx_body E payload t = Inr t'"
  obtains t3 where
    "processPrompts E (sorted_prompts payload) t3 = Inr t'"
    "locks t3 = locks t"
    "issued t3 = issued t @ bulk_statements payload"
    "prompt_v2 (db t3) = prompt_v2 (db t)"
    "prompts_versions (db t3) = prompts_versions (db t)"
    "prompt_input_record (db t3) = prompt_input_record (db t)"
proof -
  from assms obtain t1 t2 t3 where
    a: "bulk_upsert E UpsertRequest requestColumns (requests payload) request_tbl put_request t
          = Inr t1" and
    b: "bulk_upsert E UpsertResponse responseColumns (responses payload) response_tbl put_response t1
          = Inr t2" and
    c: "bulk_upsert E UpsertProperties propertiesColumns (properties payload) properties_tbl
            put_properties t2 = Inr t3" and
    d: "processPrompts E (sorted_prompts payload) t3 = Inr t'"
    unfolding tx_body_Inr by blast
  note ea = bulk_upsert_effect [OF a] and eb = bulk_upsert_effect [OF b]
    and ec = bulk_upsert_effect [OF c]
  note fa = bulk_request_frame [OF a] and fb = bulk_response_frame [OF b]
    and fc = bulk_properties_frame [OF c]
  have "locks t3 = locks t" using ea eb ec by simp
  moreover have "issued t3 = issued t @ bulk_statements payload"
    using ea eb ec by (simp add: bulk_statements_def)
  moreover have "prompt_v2 (db t3) = prompt_v2 (db t)" using fa fb fc by simp
  moreover have "prompts_versions (db t3) = prompts_versions (db t)" using fa fb fc by simp
  moreover have "prompt_input_record (db t3) = prompt_input_record (db t)" using fa fb fc by simp
  ultimately show ?thesis using d that by blast
qed

lemma set_sorted_prompts: "set (sorted_prompts payload) = set (prompts payload)"
  by (simp add: sorted_prompts_def set_Array_sort)

lemma mset_sorted_prompts: "mset (sorted_prompts payload) = mset (prompts payload)"
  by (simp add: sorted_prompts_def mset_Array_sort)

lemma length_sorted_prompts: "length (sorted_prompts payload) = length (prompts payload)"
  using mset_sorted_prompts [of payload] by (metis size_mset)

lemma sorted_prompts_valid:
  "\<forall>r\<in>set (prompts payload). Date_valid (createdAt r) \<Longrightarrow>
   sorted_prompts payload = sort_key (\<lambda>r. time_of (createdAt r)) (prompts payload)"
  by (simp add: sorted_prompts_def Array_sort_valid)

text \<open>The run of the resolution is the procedure, statement for statement.\<close>

lemma ensure_prompt_exact:
  assumes "ensure_prompt E r t = Inr (p, t')"
  shows "db t' = (if select_prompt (db t) (orgId r) (promptId r) = []
                  then insert_prompt (prompt_row_for E r (db t)) (db t) else db t) \<and>
         issued t' = issued t @ SelectPrompt (orgId r) (promptId r) #
           (if select_prompt (db t) (orgId r) (promptId r) = []
            then [InsertPrompt (promptId r) (orgId r) (createdAt r)] else [])"
  using assms
  by (auto simp: ensure_prompt_def prompt_row_for_def issue_Inr oneOrNone_None oneOrNone_Some
        on_db_def Let_def
      split: sum.splits option.splits)

lemma resolve_version_exact:
  assumes "resolve_version E r tmpl p ev t = Inr (vid, t')"
  shows "db t' = (if update_necessary E r tmpl ev
                  then insert_version (new_version E r tmpl p ev (db t)) (db t) else db t) \<and>
         issued t' = issued t @
           (if update_necessary E r tmpl ev
            then [InsertVersion (p_id p) (orgId r)
                    (case ev of Some v \<Rightarrow> v_major_version v + 1 | None \<Rightarrow> 0)
                    tmpl (model r) (createdAt r)]
            else [])"
  using assms
  by (auto simp: resolve_version_def issue_Inr on_db_def Let_def split: sum.splits if_splits)

lemma record_inputs_exact:
  assumes "record_inputs E r tmpl vid t = Inr t'"
  shows "db t' = (if vid \<noteq> []
                  then insert_input_record
                         \<lparr>r_inputs = the (template_inputs tmpl), r_source_request = requestId r,
                          r_prompt_version = vid, r_created_at = createdAt r\<rparr>
                         (insert_input_keys (keys_of tmpl) vid (createdAt r) (db t))
                  else db t) \<and>
         issued t' = issued t @
           (if vid \<noteq> []
            then [InsertInputKeys (keys_of tmpl) vid (createdAt r),
                  InsertInputRecord (the (template_inputs tmpl)) (requestId r) vid (createdAt r)]
            else [])"
  using record_inputs_Inr [OF assms] by (auto simp: keys_of_def)

lemma processPrompt_exact:
  assumes "processPrompt E r t = Inr (res, t')"
  shows "db t' = resolution_result E r (db t) \<and> locks t' = locks t \<and>
         issued t' = issued t @ resolution_statements E r (db t)"
proof (cases "truthy (heliconeTemplate r)")
  case False
  with assms show ?thesis
    by (simp add: processPrompt_def resolution_result_def resolution_statements_def)
next
  case True
  let ?tmpl = "the (heliconeTemplate r)"
  let ?p = "prompt_row_for E r (db t)"
  let ?ev = "latest_for E r (db t)"
  let ?vid = "resolved_version_id E r (db t)"
  from processPrompt_Inr [OF assms True, folded latest_for_def] obtain t1 t2 t3 where
    a: "ensure_prompt E r t = Inr (?p, t1)" and
    b: "latest_version E r ?p t1 = Inr (?ev, t2)" and
    c: "resolve_version E r ?tmpl ?p ?ev t2 = Inr (?vid, t3)" and
    v2: "prompts_versions (db t2) = prompts_versions (db t)" and
    d: "record_inputs E r ?tmpl ?vid t3 = Inr t'"
    by blast
  note ea = ensure_prompt_exact [OF a] and rc = resolve_version_exact [OF c]
    and rd = record_inputs_exact [OF d]
  from latest_version_Inr [OF b] have d2: "db t2 = db t1"
    and i2: "issued t2 = issued t1 @ [SelectLatestVersion (orgId r) (p_id ?p)]" by simp_all
  have nv: "new_version E r ?tmpl ?p ?ev (db t2) = new_version E r ?tmpl ?p ?ev (db t)"
    by (rule new_version_cong [OF v2])
  have "db t' = resolution_result E r (db t)"
    using True ea rc rd d2 nv
    by (simp add: resolution_result_def Let_def input_record_for_def)
  moreover have "issued t' = issued t @ resolution_statements E r (db t)"
    using True ea rc rd i2
    by (simp add: resolution_statements_def Let_def)
  moreover from processPrompt_trace [OF assms] have "locks t' = locks t" by simp
  ultimately show ?thesis by simp
qed

lemma processPrompts_exact:
  "processPrompts E rs t = Inr t' \<Longrightarrow>
     db t' = batch_result E rs (db t) \<and> locks t' = locks t @ map promptId rs \<and>
     issued t' = issued t @ batch_statements E rs (db t)"
proof (induction rs arbitrary: t)
  case Nil
  then show ?case by simp
next
  case (Cons r rs)
  from Cons.prems obtain t1 res t2 where
    l: "advisory_xact_lock E (promptId r) t = Inr t1" and
    p: "processPrompt E r t1 = Inr (res, t2)" and
    q: "processPrompts E rs t2 = Inr t'"
    unfolding processPrompts_Cons by blast
  from l have t1: "db t1 = db t" "locks t1 = locks t @ [promptId r]"
    "issued t1 = issued t @ [AdvisoryXactLock (promptId r)]"
    by (simp_all add: advisory_xact_lock_Inr)
  from processPrompt_exact [OF p] Cons.IH [OF q] t1 show ?case by simp
qed

lemma bulk_upsert_exact:
  assumes "bulk_upsert E mk cols input get put t = Inr t'"
  shows "db t' = (if input_rows input = [] then db t
                  else put (fold (upsert_row cols) (input_rows input) (get (db t))) (db t))"
  using bulk_upsert_effect [OF assms] by (auto simp: upsert_rows_def split: if_splits)

lemma tx_body_exact:
  assumes "tx_body E payload t = Inr t'"
  shows "db t' = batch_result E (sorted_prompts payload) (bulk_result payload (db t)) \<and>
         locks t' = locks t @ map promptId (sorted_prompts payload) \<and>
         issued t' = issued t @ bulk_statements payload @
           batch_statements E (sorted_prompts payload) (bulk_result payload (db t))"
proof -
  from assms obtain t1 t2 t3 where
    a: "bulk_upsert E UpsertRequest requestColumns (requests payload) request_tbl put_request t
          = Inr t1" and
    b: "bulk_upsert E UpsertResponse responseColumns (responses payload) response_tbl put_response t1
          = Inr t2" and
    c: "bulk_upsert E UpsertProperties propertiesColumns (properties payload) properties_tbl
            put_properties t2 = Inr t3" and
    d: "processPrompts E (sorted_prompts payload) t3 = Inr t'"
    unfolding tx_body_Inr by blast
  note ea = bulk_upsert_effect [OF a] and eb = bulk_upsert_effect [OF b]
    and ec = bulk_upsert_effect [OF c]
  have l3: "locks t3 = locks t" using ea eb ec by simp
  have i3: "issued t3 = issued t @ bulk_statements payload"
    using ea eb ec by (simp add: bulk_statements_def)
  have d1: "db t1 = put_request
              (fold (upsert_row requestColumns) (input_rows (requests payload))
                 (request_tbl (db t))) (db t)"
    using bulk_upsert_exact [OF a] by (simp add: put_request_def)
  have d2: "db t2 = put_response
              (fold (upsert_row responseColumns) (input_rows (responses payload))
                 (response_tbl (db t1))) (db t1)"
    using bulk_upsert_exact [OF b] by (simp add: put_response_def)
  have d3: "db t3 = put_properties
              (fold (upsert_row propertiesColumns) (input_rows (properties payload))
                 (properties_tbl (db t2))) (db t2)"
    using bulk_upsert_exact [OF c] by (simp add: put_properties_def)
  have "db t3 = bulk_result payload (db t)"
    unfolding d3 d2 d1 by (simp add: bulk_result_def Let_def)
  with processPrompts_exact [OF d] l3 i3 show ?thesis by simp
qed

text \<open>What the procedure leaves in the tables of prompts, versions and input records.\<close>

lemma resolution_result_prompt_v2:
  "prompt_v2 (resolution_result E r d) =
     (if truthy (heliconeTemplate r) \<and> select_prompt d (orgId r) (promptId r) = []
      then prompt_v2 d @ [prompt_row_for E r d] else prompt_v2 d)"
  by (simp add: resolution_result_def Let_def insert_prompt_def insert_version_def
      insert_input_record_def insert_input_keys_def)

lemma resolution_result_versions:
  "prompts_versions (resolution_result E r d) =
     (if truthy (heliconeTemplate r) \<and>
         update_necessary E r (the (heliconeTemplate r)) (latest_for E r d)
      then prompts_versions d @
             [new_version E r (the (heliconeTemplate r)) (prompt_row_for E r d)
                (latest_for E r d) d]
      else prompts_versions d)"
  by (simp add: resolution_result_def Let_def insert_prompt_def insert_version_def
      insert_input_record_def insert_input_keys_def)

lemma resolution_result_input_record:
  "truthy (heliconeTemplate r) \<Longrightarrow> resolved_version_id E r d \<noteq> [] \<Longrightarrow>
   prompt_input_record (resolution_result E r d) =
     prompt_input_record d @ [input_record_for E r d]"
  by (simp add: resolution_result_def Let_def insert_prompt_def insert_version_def
      insert_input_record_def insert_input_keys_def)

lemma resolution_result_ids_nonempty:
  "ids_nonempty E \<Longrightarrow> version_ids_nonempty d \<Longrightarrow>
   version_ids_nonempty (resolution_result E r d)"
  by (auto simp: version_ids_nonempty_def resolution_result_versions new_version_def
      ids_nonempty_def)

lemma batch_result_input_records:
  "\<forall>r\<in>set rs. truthy (heliconeTemplate r) \<Longrightarrow> ids_nonempty E \<Longrightarrow> version_ids_nonempty d \<Longrightarrow>
   prompt_input_record (batch_result E rs d) = prompt_input_record d @ batch_input_records E rs d"
proof (induction rs arbitrary: d)
  case Nil
  then show ?case by simp
next
  case (Cons r rs)
  from Cons.prems have tr: "truthy (heliconeTemplate r)"
    and trs: "\<forall>r\<in>set rs. truthy (heliconeTemplate r)" by simp_all
  have ne: "resolved_version_id E r d \<noteq> []"
    by (rule resolved_version_id_nonempty [OF Cons.prems(2,3)])
  have inv: "version_ids_nonempty (resolution_result E r d)"
    by (rule resolution_result_ids_nonempty [OF Cons.prems(2,3)])
  from Cons.IH [OF trs Cons.prems(2) inv] resolution_result_input_record [OF tr ne]
  show ?case by simp
qed

lemma length_batch_input_records: "length (batch_input_records E rs d) = length rs"
  by (induction rs arbitrary: d) simp_all

lemma resolved_version_is_latest:
  assumes "truthy (heliconeTemplate r)"
  shows "\<exists>v. latest_for E r (resolution_result E r d) = Some v \<and>
             v_id v = resolved_version_id E r d"
proof -
  let ?tmpl = "the (heliconeTemplate r)"
  let ?p = "prompt_row_for E r d"
  let ?ev = "latest_for E r d"
  let ?d' = "resolution_result E r d"
  let ?nv = "new_version E r ?tmpl ?p ?ev d"
  have sel: "select_prompt ?d' (orgId r) (promptId r) =
               (if select_prompt d (orgId r) (promptId r) = [] then [?p]
                else select_prompt d (orgId r) (promptId r))"
    using assms
    by (auto simp: select_prompt_def resolution_result_prompt_v2 prompt_row_for_def
        filter_empty_conv)
  have p': "prompt_row_for E r ?d' = ?p"
  proof (cases "select_prompt d (orgId r) (promptId r)")
    case Nil
    with sel show ?thesis by (simp add: prompt_row_for_def [of E r ?d'])
  next
    case (Cons x xs)
    with sel show ?thesis by (simp add: prompt_row_for_def)
  qed
  have lf: "latest_for E r ?d' = current_version ?d' (orgId r) (p_id ?p)"
    by (simp add: latest_for_def p')
  show ?thesis
  proof (cases "update_necessary E r ?tmpl ?ev")
    case True
    with assms have e: "prompts_versions ?d' = prompts_versions (insert_version ?nv d)"
      by (simp add: resolution_result_versions insert_version_def)
    have "current_version (insert_version ?nv d) (orgId r) (p_id ?p) = Some ?nv"
      by (rule current_version_minted [where ev = ?ev])
         (simp_all add: latest_for_def new_version_def)
    then have "latest_for E r ?d' = Some ?nv"
      by (simp add: lf current_version_cong [OF e])
    moreover from True have "v_id ?nv = resolved_version_id E r d"
      by (simp add: resolved_version_id_def Let_def latest_for_def)
    ultimately show ?thesis by blast
  next
    case False
    then obtain v where v: "?ev = Some v"
      by (cases ?ev) (simp_all add: update_necessary_def)
    from False assms have e: "prompts_versions ?d' = prompts_versions d"
      by (simp add: resolution_result_versions)
    from v have "latest_for E r ?d' = Some v"
      by (simp add: lf current_version_cong [OF e] latest_for_def [symmetric])
    moreover from False v have "v_id v = resolved_version_id E r d"
      by (simp add: resolved_version_id_def Let_def latest_for_def)
    ultimately show ?thesis by blast
  qed
qed

lemma filter_createdAt_valid:
  fixes xs :: "PromptRecord list"
  assumes "\<forall>r\<in>set xs. Date_valid (createdAt r)"
  shows "filter (\<lambda>r. createdAt r = k) xs =
         filter (\<lambda>r. Date_valid k \<and> time_of (createdAt r) = time_of k) xs"
proof (rule filter_cong [OF refl])
  fix r assume "r \<in> set xs"
  with assms have "Date_valid (createdAt r)" by blast
  then show "(createdAt r = k) = (Date_valid k \<and> time_of (createdAt r) = time_of k)"
    by (cases "createdAt r"; cases k) auto
qed

text \<open>
  Claim C4, as amended. In a transaction that runs to its end the locks are taken one per
  record, after the bulk statements, in the order in which \<open>Array.prototype.sort\<close>
  leaves the records (a permutation of the batch), and each lock is followed by the whole
  resolution of its record on the database the records before it left, before the next
  lock. When every record's \<open>createdAt\<close> is a valid date, that order is ascending by
  \<open>createdAt\<close> and keeps records of equal \<open>createdAt\<close> in their order of arrival.
\<close>

theorem insertLogBatch_lock_order:
  assumes "tx_body E payload t = Inr t'"
  shows "mset (sorted_prompts payload) = mset (prompts payload) \<and>
         locks t' = locks t @ map promptId (sorted_prompts payload) \<and>
         issued t' = issued t @ bulk_statements payload @
           batch_statements E (sorted_prompts payload) (bulk_result payload (db t)) \<and>
         db t' = batch_result E (sorted_prompts payload) (bulk_result payload (db t)) \<and>
         ((\<forall>r\<in>set (prompts payload). Date_valid (createdAt r)) \<longrightarrow>
            ascending (map createdAt (sorted_prompts payload)) \<and>
            sorted (map (\<lambda>r. time_of (createdAt r)) (sorted_prompts payload)) \<and>
            (\<forall>k. filter (\<lambda>r. createdAt r = k) (sorted_prompts payload) =
                 filter (\<lambda>r. createdAt r = k) (prompts payload)))"
proof -
  have order: "(\<forall>r\<in>set (prompts payload). Date_valid (createdAt r)) \<longrightarrow>
            ascending (map createdAt (sorted_prompts payload)) \<and>
            sorted (map (\<lambda>r. time_of (createdAt r)) (sorted_prompts payload)) \<and>
            (\<forall>k. filter (\<lambda>r. createdAt r = k) (sorted_prompts payload) =
                 filter (\<lambda>r. createdAt r = k) (prompts payload))"
  proof
    assume valid: "\<forall>r\<in>set (prompts payload). Date_valid (createdAt r)"
    let ?f = "\<lambda>r. time_of (createdAt r)"
    note sp = sorted_prompts_valid [OF valid]
    have srt: "sorted (map ?f (sorted_prompts payload))" by (simp add: sp)
    have vs: "\<forall>d\<in>set (map createdAt (sorted_prompts payload)). Date_valid d"
      using valid by (simp add: set_sorted_prompts)
    have "sorted (map time_of (map createdAt (sorted_prompts payload)))"
      using srt by (simp add: o_def)
    with vs have asc: "ascending (map createdAt (sorted_prompts payload))"
      by (rule ascending_valid)
    have stable: "\<forall>k. filter (\<lambda>r. createdAt r = k) (sorted_prompts payload) =
                      filter (\<lambda>r. createdAt r = k) (prompts payload)"
    proof
      fix k
      have vsp: "\<forall>r\<in>set (sorted_prompts payload). Date_valid (createdAt r)"
        using valid by (simp add: set_sorted_prompts)
      show "filter (\<lambda>r. createdAt r = k) (sorted_prompts payload) =
            filter (\<lambda>r. createdAt r = k) (prompts payload)"
      proof (cases "Date_valid k")
        case True
        have "filter (\<lambda>r. ?f r = time_of k) (sort_key ?f (prompts payload)) =
              filter (\<lambda>r. ?f r = time_of k) (prompts payload)"
          by (rule sort_key_stable)
        with True show ?thesis
          unfolding filter_createdAt_valid [OF vsp] filter_createdAt_valid [OF valid]
          by (simp add: sp)
      next
        case False
        then show ?thesis
          unfolding filter_createdAt_valid [OF vsp] filter_createdAt_valid [OF valid] by simp
      qed
    qed
    from asc srt stable show "ascending (map createdAt (sorted_prompts payload)) \<and>
            sorted (map ?f (sorted_prompts payload)) \<and>
            (\<forall>k. filter (\<lambda>r. createdAt r = k) (sorted_prompts payload) =
                 filter (\<lambda>r. createdAt r = k) (prompts payload))" by blast
  qed
  from tx_body_exact [OF assms] mset_sorted_prompts [of payload] order
  show ?thesis by blast
qed

theorem insertLogBatch_lock_order_witness:
  "tx_body demo_env payload_prompts (begun empty_database) = Inr after_batch \<and>
   prompts payload_prompts = [record_b, record_a, record_e] \<and>
   Date_valid (createdAt record_b) \<and> Date_valid (createdAt record_a) \<and>
   Date_valid (createdAt record_e) \<and>
   sorted_prompts payload_prompts = [record_a, record_e, record_b] \<and>
   ascending (map createdAt (sorted_prompts payload_prompts)) \<and>
   locks after_batch = [''greet'', ''farewell'', ''greet''] \<and>
   issued after_batch =
     [Begin,
      AdvisoryXactLock ''greet'', SelectPrompt ''org'' ''greet'',
      InsertPrompt ''greet'' ''org'' (Time 100), SelectLatestVersion ''org'' ''v'',
      InsertVersion ''v'' ''org'' 0 template_a (Some ''m'') (Time 100),
      InsertInputKeys [''name''] ''v'' (Time 100),
      InsertInputRecord (JObj [(''name'', JStr ''Ada'')]) ''req-a'' ''v'' (Time 100),
      AdvisoryXactLock ''farewell'', SelectPrompt ''org'' ''farewell'',
      InsertPrompt ''farewell'' ''org'' (Time 100), SelectLatestVersion ''org'' ''vv'',
      InsertVersion ''vv'' ''org'' 0 template_b None (Time 100),
      InsertInputKeys [''name''] ''vv'' (Time 100),
      InsertInputRecord (JObj [(''name'', JStr ''Bob'')]) ''req-e'' ''vv'' (Time 100),
      AdvisoryXactLock ''greet'', SelectPrompt ''org'' ''greet'',
      SelectLatestVersion ''org'' ''v'',
      InsertVersion ''v'' ''org'' 1 template_b (Some ''m'') (Time 200),
      InsertInputKeys [''name''] ''vvv'' (Time 200),
      InsertInputRecord (JObj [(''name'', JStr ''Bob'')]) ''req-b'' ''vvv'' (Time 200)]"
proof -
  have run: "tx_body demo_env payload_prompts (begun empty_database) = Inr after_batch"
    by (simp add: after_batch_def resolver_defs writer_defs demo_defs)
  have p: "prompts payload_prompts = [record_b, record_a, record_e]"
    by (simp add: payload_prompts_def)
  have v: "Date_valid (createdAt record_b)" "Date_valid (createdAt record_a)"
    "Date_valid (createdAt record_e)"
    by (simp_all add: demo_defs)
  have s: "sorted_prompts payload_prompts = [record_a, record_e, record_b]"
    by (simp add: writer_defs demo_defs)
  have b: "bulk_statements payload_prompts = []"
    "bulk_result payload_prompts (db (begun empty_database)) = empty_database"
    by (simp_all add: bulk_statements_def bulk_result_def input_rows_def writer_defs demo_defs)
  have i: "issued (begun empty_database) = [Begin]" "locks (begun empty_database) = []"
    by (simp_all add: begun_def)
  have st: "batch_statements demo_env [record_a, record_e, record_b] empty_database =
     [AdvisoryXactLock ''greet'', SelectPrompt ''org'' ''greet'',
      InsertPrompt ''greet'' ''org'' (Time 100), SelectLatestVersion ''org'' ''v'',
      InsertVersion ''v'' ''org'' 0 template_a (Some ''m'') (Time 100),
      InsertInputKeys [''name''] ''v'' (Time 100),
      InsertInputRecord (JObj [(''name'', JStr ''Ada'')]) ''req-a'' ''v'' (Time 100),
      AdvisoryXactLock ''farewell'', SelectPrompt ''org'' ''farewell'',
      InsertPrompt ''farewell'' ''org'' (Time 100), SelectLatestVersion ''org'' ''vv'',
      InsertVersion ''vv'' ''org'' 0 template_b None (Time 100),
      InsertInputKeys [''name''] ''vv'' (Time 100),
      InsertInputRecord (JObj [(''name'', JStr ''Bob'')]) ''req-e'' ''vv'' (Time 100),
      AdvisoryXactLock ''greet'', SelectPrompt ''org'' ''greet'',
      SelectLatestVersion ''org'' ''v'',
      InsertVersion ''v'' ''org'' 1 template_b (Some ''m'') (Time 200),
      InsertInputKeys [''name''] ''vvv'' (Time 200),
      InsertInputRecord (JObj [(''name'', JStr ''Bob'')]) ''req-b'' ''vvv'' (Time 200)]"
    by (simp add: resolution_statements_def resolution_result_def input_record_for_def
        keys_of_def latest_for_def current_version_def prompt_row_for_def
        resolved_version_id_def resolver_defs demo_defs)
  have nm: "map promptId [record_a, record_e, record_b] = [''greet'', ''farewell'', ''greet'']"
    by (simp add: demo_defs)
  have all: "\<forall>r\<in>set (prompts payload_prompts). Date_valid (createdAt r)"
    using v by (simp add: p)
  from insertLogBatch_lock_order [OF run] all
  have "ascending (map createdAt (sorted_prompts payload_prompts))"
    and "locks after_batch = locks (begun empty_database) @
           map promptId (sorted_prompts payload_prompts)"
    and "issued after_batch = issued (begun empty_database) @ bulk_statements payload_prompts @
           batch_statements demo_env (sorted_prompts payload_prompts)
             (bulk_result payload_prompts (db (begun empty_database)))"
    by blast+
  then show ?thesis using run p v s unfolding s b i st nm by simp
qed

text \<open>
  The claim as it stands fails on a batch that holds an Invalid Date: the comparator
  answers 0 for every pair it is part of, the sort leaves the batch as it came, and the
  lock of a record of time 100 is taken after the lock of a record of time 200.
\<close>

theorem insertLogBatch_lock_order_counterexample:
  "tx_body demo_env payload_invalid (begun empty_database) = Inr after_invalid \<and>
   prompts payload_invalid = [record_b, record_x, record_e] \<and>
   createdAt record_b = Time 200 \<and> createdAt record_x = Invalid_Date \<and>
   createdAt record_e = Time 100 \<and>
   sorted_prompts payload_invalid = [record_b, record_x, record_e] \<and>
   \<not> ascending (map createdAt (sorted_prompts payload_invalid)) \<and>
   locks after_invalid = [''greet'', ''broken'', ''farewell'']"
  by (simp add: after_invalid_def resolver_defs writer_defs demo_defs)

text \<open>
  Claim C5. In a transaction that runs to its end on a batch whose records all carry a
  non-empty template, exactly as many input records are appended as the batch has prompt
  records: one per record, in the order of processing, each holding the record's input
  values, request id and time and the version id resolved for it when its turn came. That
  id is the id of the latest version of the record's prompt once the record is resolved:
  the version just minted, or the latest version reused. (Ids of the database are never
  empty.)
\<close>

theorem insertLogBatch_input_records:
  assumes "tx_body E payload t = Inr t'"
    and "\<forall>r\<in>set (prompts payload). truthy (heliconeTemplate r)"
    and "ids_nonempty E" and "version_ids_nonempty (db t)"
  shows "prompt_input_record (db t') = prompt_input_record (db t) @
           batch_input_records E (sorted_prompts payload) (bulk_result payload (db t)) \<and>
         length (batch_input_records E (sorted_prompts payload) (bulk_result payload (db t)))
           = length (prompts payload) \<and>
         (\<forall>r\<in>set (prompts payload). \<forall>d. \<exists>v.
             latest_for E r (resolution_result E r d) = Some v \<and>
             r_prompt_version (input_record_for E r d) = v_id v \<and>
             r_inputs (input_record_for E r d) = the (template_inputs (the (heliconeTemplate r))) \<and>
             r_source_request (input_record_for E r d) = requestId r \<and>
             r_created_at (input_record_for E r d) = createdAt r)"
proof -
  let ?d0 = "bulk_result payload (db t)"
  let ?rs = "sorted_prompts payload"
  from tx_body_exact [OF assms(1)] have d: "db t' = batch_result E ?rs ?d0" by simp
  have i0: "prompt_input_record ?d0 = prompt_input_record (db t)"
    by (simp add: bulk_result_def Let_def put_request_def put_response_def put_properties_def)
  have "prompts_versions ?d0 = prompts_versions (db t)"
    by (simp add: bulk_result_def Let_def put_request_def put_response_def put_properties_def)
  with assms(4) have inv: "version_ids_nonempty ?d0" by (simp add: version_ids_nonempty_def)
  from assms(2) have tr: "\<forall>r\<in>set ?rs. truthy (heliconeTemplate r)"
    by (simp add: set_sorted_prompts)
  have a: "prompt_input_record (db t') = prompt_input_record (db t) @
             batch_input_records E ?rs ?d0"
    using batch_result_input_records [OF tr assms(3) inv] by (simp add: d i0)
  have b: "length (batch_input_records E ?rs ?d0) = length (prompts payload)"
    by (simp add: length_batch_input_records length_sorted_prompts)
  have c: "\<forall>r\<in>set (prompts payload). \<forall>d. \<exists>v.
             latest_for E r (resolution_result E r d) = Some v \<and>
             r_prompt_version (input_record_for E r d) = v_id v \<and>
             r_inputs (input_record_for E r d) = the (template_inputs (the (heliconeTemplate r))) \<and>
             r_source_request (input_record_for E r d) = requestId r \<and>
             r_created_at (input_record_for E r d) = createdAt r"
  proof (intro ballI allI)
    fix r d assume "r \<in> set (prompts payload)"
    with assms(2) have "truthy (heliconeTemplate r)" by blast
    from resolved_version_is_latest [OF this, of E d] obtain v where
      "latest_for E r (resolution_result E r d) = Some v" "v_id v = resolved_version_id E r d"
      by blast
    then show "\<exists>v. latest_for E r (resolution_result E r d) = Some v \<and>
             r_prompt_version (input_record_for E r d) = v_id v \<and>
             r_inputs (input_record_for E r d) = the (template_inputs (the (heliconeTemplate r))) \<and>
             r_source_request (input_record_for E r d) = requestId r \<and>
             r_created_at (input_record_for E r d) = createdAt r"
      by (simp add: input_record_for_def)
  qed
  from a b c show ?thesis by blast
qed

theorem insertLogBatch_input_records_witness:
  "tx_body demo_env payload_prompts (begun empty_database) = Inr after_batch \<and>
   prompts payload_prompts = [record_b, record_a, record_e] \<and>
   truthy (heliconeTemplate record_b) \<and> truthy (heliconeTemplate record_a) \<and>
   truthy (heliconeTemplate record_e) \<and>
   ids_nonempty demo_env \<and> version_ids_nonempty (db (begun empty_database)) \<and>
   map v_id (prompts_versions (db after_batch)) = [''v'', ''vv'', ''vvv''] \<and>
   map v_prompt_v2 (prompts_versions (db after_batch)) = [''v'', ''vv'', ''v''] \<and>
   prompt_input_record (db after_batch) =
     [\<lparr>r_inputs = JObj [(''name'', JStr ''Ada'')], r_source_request = ''req-a'',
       r_prompt_version = ''v'', r_created_at = Time 100\<rparr>,
      \<lparr>r_inputs = JObj [(''name'', JStr ''Bob'')], r_source_request = ''req-e'',
       r_prompt_version = ''vv'', r_created_at = Time 100\<rparr>,
      \<lparr>r_inputs = JObj [(''name'', JStr ''Bob'')], r_source_request = ''req-b'',
       r_prompt_version = ''vvv'', r_created_at = Time 200\<rparr>]"
proof -
  have run: "tx_body demo_env payload_prompts (begun empty_database) = Inr after_batch"
    by (simp add: after_batch_def resolver_defs writer_defs demo_defs)
  have p: "prompts payload_prompts = [record_b, record_a, record_e]"
    by (simp add: payload_prompts_def)
  have tr: "truthy (heliconeTemplate record_b)" "truthy (heliconeTemplate record_a)"
    "truthy (heliconeTemplate record_e)"
    by (simp_all add: demo_defs)
  have trs: "\<forall>r\<in>set (prompts payload_prompts). truthy (heliconeTemplate r)"
    using tr by (simp add: p)
  have ids: "ids_nonempty demo_env" by (simp add: ids_nonempty_def demo_env_def)
  have inv: "version_ids_nonempty (db (begun empty_database))"
    by (simp add: version_ids_nonempty_def begun_def empty_database_def)
  have e: "prompt_input_record (db (begun empty_database)) = []"
    "bulk_result payload_prompts (db (begun empty_database)) = empty_database"
    by (simp_all add: bulk_result_def input_rows_def writer_defs demo_defs)
  have s: "sorted_prompts payload_prompts = [record_a, record_e, record_b]"
    by (simp add: writer_defs demo_defs)
  have rows: "batch_input_records demo_env [record_a, record_e, record_b] empty_database =
     [\<lparr>r_inputs = JObj [(''name'', JStr ''Ada'')], r_source_request = ''req-a'',
       r_prompt_version = ''v'', r_created_at = Time 100\<rparr>,
      \<lparr>r_inputs = JObj [(''name'', JStr ''Bob'')], r_source_request = ''req-e'',
       r_prompt_version = ''vv'', r_created_at = Time 100\<rparr>,
      \<lparr>r_inputs = JObj [(''name'', JStr ''Bob'')], r_source_request = ''req-b'',
       r_prompt_version = ''vvv'', r_created_at = Time 200\<rparr>]"
    by (simp add: resolution_result_def input_record_for_def keys_of_def latest_for_def
        current_version_def prompt_row_for_def resolved_version_id_def resolver_defs demo_defs)
  from insertLogBatch_input_records [OF run trs ids inv]
  have "prompt_input_record (db after_batch) =
     [\<lparr>r_inputs = JObj [(''name'', JStr ''Ada'')], r_source_request = ''req-a'',
       r_prompt_version = ''v'', r_created_at = Time 100\<rparr>,
      \<lparr>r_inputs = JObj [(''name'', JStr ''Bob'')], r_source_request = ''req-e'',
       r_prompt_version = ''vv'', r_created_at = Time 100\<rparr>,
      \<lparr>r_inputs = JObj [(''name'', JStr ''Bob'')], r_source_request = ''req-b'',
       r_prompt_version = ''vvv'', r_created_at = Time 200\<rparr>]"
    unfolding e s rows by simp
  moreover have "map v_id (prompts_versions (db after_batch)) = [''v'', ''vv'', ''vvv'']"
    "map v_prompt_v2 (prompts_versions (db after_batch)) = [''v'', ''vv'', ''v'']"
    by (simp_all add: after_batch_def resolver_defs writer_defs demo_defs)
  ultimately show ?thesis using run p tr ids inv by blast
qed

text \<open>
  Claim C6. In a transaction that runs to its end, each of the three bulk tables (whose
  keys were unique) is left with unique keys; every incoming row is stored exactly once
  under its id, with the incoming value in every column of the column set but \<open>id\<close>,
  and, where a row of that id existed, with that row's id and unlisted columns; rows of
  other ids are untouched. The bulk statements sent are those of the non-empty inputs
  only, and a step whose input is absent or empty returns at once without a statement.
\<close>

theorem insertLogBatch_upserts:
  assumes "tx_body E payload t = Inr t'"
    and "distinct (map row_id (request_tbl (db t)))"
    and "distinct (map row_id (response_tbl (db t)))"
    and "distinct (map row_id (properties_tbl (db t)))"
  shows "upserted requestColumns (input_rows (requests payload))
           (request_tbl (db t)) (request_tbl (db t')) \<and>
         upserted responseColumns (input_rows (responses payload))
           (response_tbl (db t)) (response_tbl (db t')) \<and>
         upserted propertiesColumns (input_rows (properties payload))
           (properties_tbl (db t)) (properties_tbl (db t')) \<and>
         (\<exists>ps. issued t' = issued t @ bulk_statements payload @ ps \<and> (\<forall>s\<in>set ps. \<not> is_bulk s)) \<and>
         (\<forall>mk cols get put u. bulk_upsert E mk cols None get put u = Inr u \<and>
                              bulk_upsert E mk cols (Some []) get put u = Inr u)"
proof -
  from assms(1) obtain t1 t2 t3 where
    a: "bulk_upsert E UpsertRequest requestColumns (requests payload) request_tbl put_request t
          = Inr t1" and
    b: "bulk_upsert E UpsertResponse responseColumns (responses payload) response_tbl put_response t1
          = Inr t2" and
    c: "bulk_upsert E UpsertProperties propertiesColumns (properties payload) properties_tbl
            put_properties t2 = Inr t3" and
    d: "processPrompts E (sorted_prompts payload) t3 = Inr t'"
    unfolding tx_body_Inr by blast
  note fa = bulk_request_frame [OF a] and fb = bulk_response_frame [OF b]
    and fc = bulk_properties_frame [OF c] and fd = processPrompts_bulk_tables [OF d]
  have req: "request_tbl (db t') = request_tbl (db t1)" using fb fc fd by simp
  have "response_tbl (db t1) = response_tbl (db t)" using fa by simp
  with assms(3) have d2: "distinct (map row_id (response_tbl (db t1)))" by simp
  have res: "response_tbl (db t') = response_tbl (db t2)" using fc fd by simp
  have "properties_tbl (db t2) = properties_tbl (db t)" using fa fb by simp
  with assms(4) have d3: "distinct (map row_id (properties_tbl (db t2)))" by simp
  have pro: "properties_tbl (db t') = properties_tbl (db t3)" using fd by simp
  have c1: "upserted requestColumns (input_rows (requests payload))
           (request_tbl (db t)) (request_tbl (db t'))"
    using bulk_request [OF a assms(2)] by (simp add: req)
  have c2: "upserted responseColumns (input_rows (responses payload))
           (response_tbl (db t)) (response_tbl (db t'))"
    using bulk_response [OF b d2] fa by (simp add: res)
  have c3: "upserted propertiesColumns (input_rows (properties payload))
           (properties_tbl (db t)) (properties_tbl (db t'))"
    using bulk_properties [OF c d3] fa fb by (simp add: pro)
  from tx_body_phases [OF assms(1)] obtain u3 where
    d': "processPrompts E (sorted_prompts payload) u3 = Inr t'" and
    i: "issued u3 = issued t @ bulk_statements payload" by metis
  from processPrompts_trace [OF d'] i
  have c4: "\<exists>ps. issued t' = issued t @ bulk_statements payload @ ps \<and> (\<forall>s\<in>set ps. \<not> is_bulk s)"
    by auto
  have c5: "\<forall>mk cols get put u. bulk_upsert E mk cols None get put u = Inr u \<and>
                              bulk_upsert E mk cols (Some []) get put u = Inr u"
    by (simp add: bulk_upsert_def)
  from c1 c2 c3 c4 c5 show ?thesis by blast
qed

theorem insertLogBatch_upserts_witness:
  "tx_body demo_env payload_rows (begun database_one) = Inr after_rows \<and>
   distinct (map row_id (request_tbl (db (begun database_one)))) \<and>
   distinct (map row_id (response_tbl (db (begun database_one)))) \<and>
   distinct (map row_id (properties_tbl (db (begun database_one)))) \<and>
   request_tbl (db (begun database_one)) = [row_one] \<and>
   row_one ''id'' = Some (JStr ''r1'') \<and> row_one ''body'' = Some (JStr ''one'') \<and>
   row_two ''id'' = Some (JStr ''r1'') \<and> row_two ''body'' = Some (JStr ''two'') \<and>
   (\<exists>y. request_tbl (db after_rows) = [y] \<and> y ''id'' = Some (JStr ''r1'') \<and>
        y ''body'' = Some (JStr ''two'') \<and> y ''model'' = Some (JStr ''two'')) \<and>
   issued after_rows = [Begin, UpsertRequest [row_two]]"
proof -
  have run: "tx_body demo_env payload_rows (begun database_one) = Inr after_rows"
    by (simp add: after_rows_def resolver_defs writer_defs demo_defs)
  have d1: "distinct (map row_id (request_tbl (db (begun database_one))))"
    and d2: "distinct (map row_id (response_tbl (db (begun database_one))))"
    and d3: "distinct (map row_id (properties_tbl (db (begun database_one))))"
    by (simp_all add: begun_def demo_defs)
  have before: "request_tbl (db (begun database_one)) = [row_one]"
    by (simp add: begun_def demo_defs)
  have inp: "input_rows (requests payload_rows) = [row_two]"
    by (simp add: input_rows_def demo_defs)
  have ids: "row_id row_one = row_id row_two" "row_two ''id'' = Some (JStr ''r1'')"
    "row_two ''body'' = Some (JStr ''two'')" "row_two ''model'' = Some (JStr ''two'')"
    "row_one ''id'' = Some (JStr ''r1'')" "row_one ''body'' = Some (JStr ''one'')"
    by (simp_all add: row_id_def row_one_def row_two_def requestColumns_def)
  have cols: "''body'' \<in> set requestColumns" "''model'' \<in> set requestColumns"
    by (simp_all add: requestColumns_def)
  have tbl: "request_tbl (db after_rows) = [updated_row requestColumns row_two row_one]"
    by (simp add: after_rows_def resolver_defs writer_defs demo_defs upsert_row_def row_id_def
        row_one_def row_two_def)
  from insertLogBatch_upserts [OF run d1 d2 d3]
  have u: "upserted requestColumns [row_two] [row_one] (request_tbl (db after_rows))"
    and "\<exists>ps. issued after_rows = issued (begun database_one) @ bulk_statements payload_rows @ ps"
    unfolding before inp by blast+
  from u obtain y where
    y: "filter (\<lambda>y. row_id y = row_id row_two) (request_tbl (db after_rows)) = [y]"
       "\<forall>c\<in>set requestColumns. c \<noteq> ''id'' \<longrightarrow> y c = row_two c"
       "y ''id'' = row_one ''id''"
    unfolding upserted_def using ids(1) by auto
  from y(1) have "request_tbl (db after_rows) = [y]"
    unfolding tbl by (simp add: row_id_updated_row ids(1) split: if_splits)
  moreover from y(2) cols have "y ''body'' = Some (JStr ''two'')"
    "y ''model'' = Some (JStr ''two'')"
    using ids by auto
  moreover from y(3) have "y ''id'' = Some (JStr ''r1'')" using ids by simp
  moreover have "issued after_rows = [Begin, UpsertRequest [row_two]]"
    by (simp add: after_rows_def resolver_defs writer_defs demo_defs)
  ultimately show ?thesis using run d1 d2 d3 before ids by blast
qed


lemma processPrompt_lacking_inputs:
  assumes "truthy (heliconeTemplate r)" and "template_inputs (the (heliconeTemplate r)) = None"
    and "ids_nonempty E" and "version_ids_nonempty (db t)"
  shows "\<exists>e. processPrompt E r t = Inl e"
proof (cases "processPrompt E r t")
  case (Inl e)
  then show ?thesis by blast
next
  case (Inr x)
  then obtain res t' where run: "processPrompt E r t = Inr (res, t')" by (cases x) simp
  from processPrompt_Inr [OF run assms(1)] obtain t3 where
    d: "record_inputs E r (the (heliconeTemplate r)) (resolved_version_id E r (db t)) t3 = Inr t'"
    by blast
  have "resolved_version_id E r (db t) \<noteq> []"
    by (rule resolved_version_id_nonempty [OF assms(3,4)])
  with record_inputs_Inr [OF d] obtain ks where
    "Object_keys (template_inputs (the (heliconeTemplate r))) = Inr ks" by auto
  with assms(2) show ?thesis by simp
qed

lemma Object_keys_Inl: "Object_keys x = Inl e \<Longrightarrow> e = TypeError"
  by (cases x rule: Object_keys.cases) simp_all

lemma oneOrNone_Inl: "oneOrNone xs = Inl e \<Longrightarrow> 2 \<le> length xs"
  by (cases xs rule: oneOrNone.cases) simp_all

lemma ensure_prompt_Inl:
  assumes "ensure_prompt E r t = Inl e" and "\<forall>h s. \<not> rejects E h s"
  shows "2 \<le> length (select_prompt (db t) (orgId r) (promptId r))"
  using assms
  by (auto simp: ensure_prompt_def issue_def Let_def dest: oneOrNone_Inl
      split: sum.splits option.splits)

lemma latest_version_Inl:
  assumes "latest_version E r p t = Inl e" and "\<forall>h s. \<not> rejects E h s"
  shows False
  using assms
  by (auto simp: latest_version_def issue_def oneOrNone_latest split: sum.splits)

lemma resolve_version_Inl:
  assumes "resolve_version E r tmpl p ev t = Inl e" and "\<forall>h s. \<not> rejects E h s"
  shows False
  using assms
  by (auto simp: resolve_version_def issue_def Let_def split: sum.splits if_splits)

lemma record_inputs_Inl:
  assumes "record_inputs E r tmpl vid t = Inl e" and "\<forall>h s. \<not> rejects E h s"
  shows "e = TypeError"
  using assms
  by (auto simp: record_inputs_def issue_def Let_def dest: Object_keys_Inl
      split: sum.splits if_splits)

lemma processPrompt_Inl:
  assumes "processPrompt E r t = Inl e" and "\<forall>h s. \<not> rejects E h s"
    and "length (select_prompt (db t) (orgId r) (promptId r)) \<le> 1"
  shows "e = TypeError"
proof -
  from assms(1) have tr: "truthy (heliconeTemplate r)"
    by (auto simp: processPrompt_def split: if_splits)
  let ?tmpl = "the (heliconeTemplate r)"
  show ?thesis
  proof (cases "ensure_prompt E r t")
    case (Inl a)
    from ensure_prompt_Inl [OF Inl assms(2)] assms(3) show ?thesis by simp
  next
    case (Inr x)
    then obtain p t1 where a: "ensure_prompt E r t = Inr (p, t1)" by (cases x) simp
    show ?thesis
    proof (cases "latest_version E r p t1")
      case (Inl b)
      from latest_version_Inl [OF Inl assms(2)] show ?thesis ..
    next
      case (Inr y)
      then obtain ev t2 where b: "latest_version E r p t1 = Inr (ev, t2)" by (cases y) simp
      show ?thesis
      proof (cases "resolve_version E r ?tmpl p ev t2")
        case (Inl c)
        from resolve_version_Inl [OF Inl assms(2)] show ?thesis ..
      next
        case (Inr z)
        then obtain vid t3 where c: "resolve_version E r ?tmpl p ev t2 = Inr (vid, t3)"
          by (cases z) simp
        from assms(1) tr a b c have "record_inputs E r ?tmpl vid t3 = Inl e"
          by (simp add: processPrompt_def Let_def split: sum.splits)
        from record_inputs_Inl [OF this assms(2)] show ?thesis .
      qed
    qed
  qed
qed

lemma processPrompts_lacking_inputs:
  "r \<in> set rs \<Longrightarrow> truthy (heliconeTemplate r) \<Longrightarrow>
   template_inputs (the (heliconeTemplate r)) = None \<Longrightarrow>
   ids_nonempty E \<Longrightarrow> version_ids_nonempty (db t) \<Longrightarrow> \<exists>e. processPrompts E rs t = Inl e"
proof (induction rs arbitrary: t)
  case Nil
  then show ?case by simp
next
  case (Cons a rs)
  show ?case
  proof (cases "processPrompts E (a # rs) t")
    case (Inl e)
    then show ?thesis by blast
  next
    case (Inr t')
    then obtain t1 res t2 where
      l: "advisory_xact_lock E (promptId a) t = Inr t1" and
      p: "processPrompt E a t1 = Inr (res, t2)" and
      q: "processPrompts E rs t2 = Inr t'"
      unfolding processPrompts_Cons by blast
    from l have "db t1 = db t" by (simp add: advisory_xact_lock_Inr)
    with Cons.prems(5) have inv1: "version_ids_nonempty (db t1)" by simp
    have inv2: "version_ids_nonempty (db t2)"
      by (rule processPrompt_version_ids_nonempty [OF p Cons.prems(4) inv1])
    show ?thesis
    proof (cases "r = a")
      case True
      from processPrompt_lacking_inputs [OF Cons.prems(2,3,4) inv1, unfolded True] p
      show ?thesis by simp
    next
      case False
      with Cons.prems(1) have "r \<in> set rs" by simp
      from Cons.IH [OF this Cons.prems(2,3,4) inv2] q show ?thesis by simp
    qed
  qed
qed

lemma tx_body_lacking_inputs:
  assumes "r \<in> set (prompts payload)" and "truthy (heliconeTemplate r)"
    and "template_inputs (the (heliconeTemplate r)) = None"
    and "ids_nonempty E" and "version_ids_nonempty (db t)"
  shows "\<exists>e. tx_body E payload t = Inl e"
proof (cases "tx_body E payload t")
  case (Inl e)
  then show ?thesis by blast
next
  case (Inr t')
  from tx_body_phases [OF Inr] obtain t3 where
    d: "processPrompts E (sorted_prompts payload) t3 = Inr t'" and
    v: "prompts_versions (db t3) = prompts_versions (db t)" by metis
  from assms(5) v have inv: "version_ids_nonempty (db t3)"
    by (simp add: version_ids_nonempty_def)
  from assms(1) have "r \<in> set (sorted_prompts payload)"
    by (simp add: set_sorted_prompts)
  from processPrompts_lacking_inputs [OF this assms(2,3,4) inv] d show ?thesis by simp
qed

lemma insertLogBatch_failure:
  assumes "rejects E [] Begin \<or> (\<exists>e. tx_body E payload (begun d) = Inl e) \<or>
           (\<exists>t'. tx_body E payload (begun d) = Inr t' \<and> rejects E (issued t') Commit)"
  shows "insertLogBatch E payload d = (err ''Failed to insert log batch'', d)"
  using assms
  by (auto simp: insertLogBatch_def db_tx_def issue_def begun_def split: sum.splits)

lemma insertLogBatch_success:
  assumes "\<not> rejects E [] Begin" and "tx_body E payload (begun d) = Inr t'"
    and "\<not> rejects E (issued t') Commit"
  shows "insertLogBatch E payload d = (ok ''Successfully inserted log batch'', db t')"
  using assms
  by (auto simp: insertLogBatch_def db_tx_def issue_def begun_def split: sum.splits)

text \<open>
  Claim C3. \<open>insertLogBatch\<close> always returns a result. When \<open>BEGIN\<close>, any step of the
  callback or \<open>COMMIT\<close> raises, the result is the error \<open>Failed to insert log batch\<close>
  and the database is exactly as it was before the call, in all seven tables. When none
  raises, the result is the success \<open>Successfully inserted log batch\<close> and the database
  is the one the callback produced.
\<close>

theorem insertLogBatch_atomic:
  "((rejects E [] Begin \<or> (\<exists>e. tx_body E payload (begun d) = Inl e) \<or>
     (\<exists>t'. tx_body E payload (begun d) = Inr t' \<and> rejects E (issued t') Commit)) \<longrightarrow>
      insertLogBatch E payload d = (err ''Failed to insert log batch'', d)) \<and>
   (\<forall>t'. \<not> rejects E [] Begin \<and> tx_body E payload (begun d) = Inr t' \<and>
         \<not> rejects E (issued t') Commit \<longrightarrow>
      insertLogBatch E payload d = (ok ''Successfully inserted log batch'', db t')) \<and>
   (fst (insertLogBatch E payload d) = err ''Failed to insert log batch'' \<or>
    fst (insertLogBatch E payload d) = ok ''Successfully inserted log batch'')"
proof -
  have a: "(rejects E [] Begin \<or> (\<exists>e. tx_body E payload (begun d) = Inl e) \<or>
     (\<exists>t'. tx_body E payload (begun d) = Inr t' \<and> rejects E (issued t') Commit)) \<longrightarrow>
      insertLogBatch E payload d = (err ''Failed to insert log batch'', d)"
    using insertLogBatch_failure by blast
  have b: "\<forall>t'. \<not> rejects E [] Begin \<and> tx_body E payload (begun d) = Inr t' \<and>
         \<not> rejects E (issued t') Commit \<longrightarrow>
      insertLogBatch E payload d = (ok ''Successfully inserted log batch'', db t')"
    using insertLogBatch_success by blast
  have c: "fst (insertLogBatch E payload d) = err ''Failed to insert log batch'' \<or>
    fst (insertLogBatch E payload d) = ok ''Successfully inserted log batch''"
    by (simp add: insertLogBatch_def split: prod.splits sum.splits)
  from a b c show ?thesis by blast
qed

theorem insertLogBatch_atomic_witness:
  "tx_body demo_env payload_failing (begun database_one) = Inl TypeError \<and>
   sorted_prompts payload_failing = [record_a, record_b, record_c, record_d] \<and>
   insertLogBatch demo_env payload_failing database_one
     = (err ''Failed to insert log batch'', database_one) \<and>
   \<not> rejects demo_env [] Begin \<and>
   tx_body demo_env payload_rows (begun database_one) = Inr after_rows \<and>
   \<not> rejects demo_env (issued after_rows) Commit \<and>
   insertLogBatch demo_env payload_rows database_one
     = (ok ''Successfully inserted log batch'', db after_rows)"
proof -
  have fail: "tx_body demo_env payload_failing (begun database_one) = Inl TypeError"
    by (simp add: resolver_defs writer_defs demo_defs upsert_row_def row_id_def
        row_one_def row_two_def)
  have s: "sorted_prompts payload_failing = [record_a, record_b, record_c, record_d]"
    by (simp add: writer_defs demo_defs)
  have run: "tx_body demo_env payload_rows (begun database_one) = Inr after_rows"
    by (simp add: after_rows_def resolver_defs writer_defs demo_defs)
  have acc: "\<not> rejects demo_env [] Begin" "\<not> rejects demo_env (issued after_rows) Commit"
    by (simp_all add: demo_env_def)
  from insertLogBatch_atomic [of demo_env payload_failing database_one] fail
  have a: "insertLogBatch demo_env payload_failing database_one
             = (err ''Failed to insert log batch'', database_one)" by blast
  from insertLogBatch_atomic [of demo_env payload_rows database_one] run acc
  have b: "insertLogBatch demo_env payload_rows database_one
             = (ok ''Successfully inserted log batch'', db after_rows)" by blast
  from fail s a acc run b show ?thesis by blast
qed


text \<open>
  Claim C10. When a record of the batch carries a non-empty template without an
  \<open>inputs\<close> property, \<open>insertLogBatch\<close> returns the error result and leaves the
  database as it was. \<open>processPrompt\<close> never returns on such a record, and where the
  database rejects nothing and holds at most one matching prompt, what it raises is the
  TypeError of \<open>Object.keys\<close>. (Ids of the database are never empty.)
\<close>

theorem insertLogBatch_template_without_inputs:
  assumes "r \<in> set (prompts payload)" and "truthy (heliconeTemplate r)"
    and "template_inputs (the (heliconeTemplate r)) = None"
    and "ids_nonempty E" and "version_ids_nonempty d"
  shows "insertLogBatch E payload d = (err ''Failed to insert log batch'', d) \<and>
         (\<forall>t. version_ids_nonempty (db t) \<longrightarrow>
            (\<exists>e. processPrompt E r t = Inl e) \<and>
            ((\<forall>h s. \<not> rejects E h s) \<and>
             length (select_prompt (db t) (orgId r) (promptId r)) \<le> 1 \<longrightarrow>
               processPrompt E r t = Inl TypeError))"
proof -
  from assms(5) have "version_ids_nonempty (db (begun d))" by (simp add: begun_def)
  from tx_body_lacking_inputs [OF assms(1,2,3,4) this]
  have a: "insertLogBatch E payload d = (err ''Failed to insert log batch'', d)"
    by (intro insertLogBatch_failure) blast
  have b: "\<forall>t. version_ids_nonempty (db t) \<longrightarrow>
            (\<exists>e. processPrompt E r t = Inl e) \<and>
            ((\<forall>h s. \<not> rejects E h s) \<and>
             length (select_prompt (db t) (orgId r) (promptId r)) \<le> 1 \<longrightarrow>
               processPrompt E r t = Inl TypeError)"
  proof (intro allI impI conjI)
    fix t :: tx assume inv: "version_ids_nonempty (db t)"
    show "\<exists>e. processPrompt E r t = Inl e"
      by (rule processPrompt_lacking_inputs [OF assms(2,3,4) inv])
  next
    fix t :: tx assume inv: "version_ids_nonempty (db t)"
      and q: "(\<forall>h s. \<not> rejects E h s) \<and>
              length (select_prompt (db t) (orgId r) (promptId r)) \<le> 1"
    from processPrompt_lacking_inputs [OF assms(2,3,4) inv] obtain e where
      e: "processPrompt E r t = Inl e" by blast
    from processPrompt_Inl [OF e] q have "e = TypeError" by blast
    with e show "processPrompt E r t = Inl TypeError" by simp
  qed
  from a b show ?thesis by blast
qed

theorem insertLogBatch_template_without_inputs_witness:
  "record_c \<in> set (prompts payload_failing) \<and>
   truthy (heliconeTemplate record_c) \<and>
   template_inputs (the (heliconeTemplate record_c)) = None \<and>
   ids_nonempty demo_env \<and> version_ids_nonempty empty_database \<and>
   insertLogBatch demo_env payload_failing empty_database
     = (err ''Failed to insert log batch'', empty_database) \<and>
   processPrompt demo_env record_c (begun empty_database) = Inl TypeError"
proof -
  have m: "record_c \<in> set (prompts payload_failing)" by (simp add: payload_failing_def)
  have tr: "truthy (heliconeTemplate record_c)" by (simp add: demo_defs)
  have ni: "template_inputs (the (heliconeTemplate record_c)) = None" by (simp add: demo_defs)
  have ids: "ids_nonempty demo_env" by (simp add: ids_nonempty_def demo_env_def)
  have inv: "version_ids_nonempty empty_database"
    by (simp add: version_ids_nonempty_def empty_database_def)
  have inv': "version_ids_nonempty (db (begun empty_database))"
    by (simp add: version_ids_nonempty_def begun_def empty_database_def)
  have q: "(\<forall>h s. \<not> rejects demo_env h s) \<and>
           length (select_prompt (db (begun empty_database)) (orgId record_c) (promptId record_c))
             \<le> 1"
    by (simp add: demo_env_def select_prompt_def begun_def empty_database_def)
  from insertLogBatch_template_without_inputs [OF m tr ni ids inv] inv' q
  have "insertLogBatch demo_env payload_failing empty_database
          = (err ''Failed to insert log batch'', empty_database) \<and>
        processPrompt demo_env record_c (begun empty_database) = Inl TypeError"
    by blast
  with m tr ni ids inv show ?thesis by blast
qed


text \<open>
  Claim C8. When the body has no \<open>temperature\<close> or no \<open>model\<close>, the handler answers
  with status 400 and the message for missing parameters, and makes no call to the model
  provider; the reply is all it does.
\<close>

theorem handler_missing_field:
  assumes "b_temperature b = None \<or> b_model b = None"
  shows "handler DEMO_EMAIL create user b =
           Inr \<lparr>status = 400,
                body = \<lparr>data = None,
                        error = Some ''Bad request - missing required body parameters''\<rparr>,
                provider_calls = []\<rparr>"
  using assms by (auto simp: handler_def)

theorem handler_missing_field_witness:
  "(b_temperature body_without_temperature = None \<or> b_model body_without_temperature = None) \<and>
   handler ''demo@example.org'' demo_create demo_user body_without_temperature =
     Inr \<lparr>status = 400,
          body = \<lparr>data = None, error = Some ''Bad request - missing required body parameters''\<rparr>,
          provider_calls = []\<rparr>"
proof -
  have h: "b_temperature body_without_temperature = None \<or>
           b_model body_without_temperature = None"
    by (simp add: body_without_temperature_def)
  from handler_missing_field [OF h, of "''demo@example.org''" demo_create demo_user] h
  show ?thesis by simp
qed

text \<open>
  Claim C9. When the body has a truthy \<open>temperature\<close> and \<open>model\<close> and the user is
  signed in and is not the demo account, the handler replies after calling the model
  provider exactly once, with the model \<open>claude-3-opus-20240229\<close>; the call is the same
  whatever truthy value the body's \<open>model\<close> has.
\<close>

theorem handler_fixed_model:
  assumes "truthy (b_temperature b)" and "truthy (b_model b)"
    and "u_data user = Some (Some u)" and "u_email u \<noteq> Some DEMO_EMAIL"
  shows "map_sum id provider_calls (handler DEMO_EMAIL create user b) =
           Inr [\<lparr>c_model = ''claude-3-opus-20240229'',
                 c_max_tokens = b_maxTokens b,
                 c_temperature = b_temperature b,
                 c_user_id = u_id u,
                 c_messages = b_messages b\<rparr>] \<and>
         (\<forall>m. truthy m \<longrightarrow>
              map_sum id provider_calls (handler DEMO_EMAIL create user (b\<lparr>b_model := m\<rparr>)) =
              map_sum id provider_calls (handler DEMO_EMAIL create user b))"
  using assms by (auto simp: handler_def Let_def split: sum.splits)

theorem handler_fixed_model_witness:
  "truthy (b_temperature body_complete) \<and> truthy (b_model body_complete) \<and>
   b_model body_complete = Some (JStr ''claude-3-haiku'') \<and>
   u_data demo_user = Some (Some \<lparr>u_id = ''u1'', u_email = Some ''ada@example.org''\<rparr>) \<and>
   map_sum id provider_calls (handler ''demo@example.org'' demo_create demo_user body_complete) =
     Inr [\<lparr>c_model = ''claude-3-opus-20240229'', c_max_tokens = Some (JNum 256),
           c_temperature = Some (JNum (7 / 10)), c_user_id = ''u1'',
           c_messages = Some (JArr [])\<rparr>]"
proof -
  have t: "truthy (b_temperature body_complete)" and m: "truthy (b_model body_complete)"
    by (simp_all add: body_complete_def)
  have u: "u_data demo_user = Some (Some \<lparr>u_id = ''u1'', u_email = Some ''ada@example.org''\<rparr>)"
    by (simp add: demo_user_def)
  have e: "u_email \<lparr>u_id = ''u1'', u_email = Some ''ada@example.org''\<rparr> \<noteq> Some ''demo@example.org''"
    by simp
  from handler_fixed_model [OF t m u e, of demo_create]
  have "map_sum id provider_calls
          (handler ''demo@example.org'' demo_create demo_user body_complete) =
        Inr [\<lparr>c_model = ''claude-3-opus-20240229'', c_max_tokens = Some (JNum 256),
              c_temperature = Some (JNum (7 / 10)), c_user_id = ''u1'',
              c_messages = Some (JArr [])\<rparr>]"
    by (simp add: body_complete_def)
  moreover have "b_model body_complete = Some (JStr ''claude-3-haiku'')"
    by (simp add: body_complete_def)
  ultimately show ?thesis using t m u by blast
qed

text \<open>
  Claim C7. When the runs of all messages have completed and each commit returns,
  \<open>processLogEntries\<close> returns normally, whatever the two results are. The log commit
  acts on the world the runs left, the rate-limit commit on the world the log commit
  left, also when the log commit returned an error. The console holds the line for the
  finished batch, then a line with the log commit's error and the batch id when that
  result carries an error message, then a line with the batch id when the rate-limit
  result carries an error message or no data.
\<close>

theorem processLogEntries_commits:
  assumes "fan_out logMessages w = Inr w1"
    and "logCommit w1 = Inr (upsertResult, w2)"
    and "rateLimitCommit w2 = Inr (rl, w3)"
  shows "processLogEntries fan_out logCommit rateLimitCommit logMessages batchId w =
           Inr \<lparr>world = w3,
                console =
                  [Console_log (''Finished processing batch '' @ batchId)] @
                  (if truthy_string (error upsertResult)
                   then [Console_error (''Error inserting logs: '' @ the (error upsertResult)
                           @ '' for batch '' @ batchId)]
                   else []) @
                  (if truthy_string (error rl) \<or> \<not> truthy (data rl)
                   then [Console_error (''Error inserting rate limits: ''
                           @ template_literal (error rl) @ '' for batch '' @ batchId)]
                   else [])\<rparr>"
  using assms
  by (auto simp: processLogEntries_def Let_def truthy_string_def template_literal_def
      split: option.splits)

theorem processLogEntries_commits_witness:
  "demo_fan_out [''m1'', ''m2''] [] = Inr [''run m1'', ''run m2''] \<and>
   failing_logCommit [''run m1'', ''run m2'']
     = Inr (err ''Failed to insert log batch'', [''run m1'', ''run m2'', ''log commit'']) \<and>
   demo_rateLimitCommit [''run m1'', ''run m2'', ''log commit'']
     = Inr (ok (JStr ''rl-1''), [''run m1'', ''run m2'', ''log commit'', ''rate-limit commit'']) \<and>
   processLogEntries demo_fan_out failing_logCommit demo_rateLimitCommit [''m1'', ''m2''] ''b7'' []
     = Inr \<lparr>world = [''run m1'', ''run m2'', ''log commit'', ''rate-limit commit''],
            console = [Console_log ''Finished processing batch b7'',
                       Console_error
                         ''Error inserting logs: Failed to insert log batch for batch b7'']\<rparr>"
proof -
  have a: "demo_fan_out [''m1'', ''m2''] [] = Inr [''run m1'', ''run m2'']"
    by (simp add: demo_fan_out_def)
  have b: "failing_logCommit [''run m1'', ''run m2'']
     = Inr (err ''Failed to insert log batch'', [''run m1'', ''run m2'', ''log commit''])"
    by (simp add: failing_logCommit_def)
  have c: "demo_rateLimitCommit [''run m1'', ''run m2'', ''log commit'']
     = Inr (ok (JStr ''rl-1''), [''run m1'', ''run m2'', ''log commit'', ''rate-limit commit''])"
    by (simp add: demo_rateLimitCommit_def)
  from processLogEntries_commits
         [where fan_out = demo_fan_out and logCommit = failing_logCommit
            and rateLimitCommit = demo_rateLimitCommit and logMessages = "[''m1'', ''m2'']"
            and w = "[]" and batchId = "''b7''", OF a b c] a b c
  show ?thesis by (simp add: ok_def err_def truthy_string_def)
qed

end
